theory Spec2Isabelle
  imports Main
begin

section \<open>Python values used by the scraper\<close>

text \<open>
  A raised exception is a value of type \<open>fault\<close>: \<open>Exception\<close> stands for every
  subclass of Python's \<open>Exception\<close> (with its message), \<open>KeyboardInterrupt\<close> for the
  interrupt, which \<open>except Exception\<close> does not catch.
\<close>

datatype fault = Exception string | KeyboardInterrupt

text \<open>
  The capital and small letters of Latin-1 outside ASCII, in the order of their code points:
  \<open>0xC0\<close> to \<open>0xDE\<close> without the multiplication sign \<open>0xD7\<close>, and \<open>0xE0\<close> to
  \<open>0xFE\<close> without the division sign \<open>0xF7\<close>.
\<close>

definition latin1_capitals :: string where
  "latin1_capitals =
           [CHR 0xC0, CHR 0xC1, CHR 0xC2, CHR 0xC3, CHR 0xC4, CHR 0xC5, CHR 0xC6, CHR 0xC7,
            CHR 0xC8, CHR 0xC9, CHR 0xCA, CHR 0xCB, CHR 0xCC, CHR 0xCD, CHR 0xCE, CHR 0xCF,
            CHR 0xD0, CHR 0xD1, CHR 0xD2, CHR 0xD3, CHR 0xD4, CHR 0xD5, CHR 0xD6, CHR 0xD8,
            CHR 0xD9, CHR 0xDA, CHR 0xDB, CHR 0xDC, CHR 0xDD, CHR 0xDE]"

definition latin1_smalls :: string where
  "latin1_smalls =
           [CHR 0xE0, CHR 0xE1, CHR 0xE2, CHR 0xE3, CHR 0xE4, CHR 0xE5, CHR 0xE6, CHR 0xE7,
            CHR 0xE8, CHR 0xE9, CHR 0xEA, CHR 0xEB, CHR 0xEC, CHR 0xED, CHR 0xEE, CHR 0xEF,
            CHR 0xF0, CHR 0xF1, CHR 0xF2, CHR 0xF3, CHR 0xF4, CHR 0xF5, CHR 0xF6, CHR 0xF8,
            CHR 0xF9, CHR 0xFA, CHR 0xFB, CHR 0xFC, CHR 0xFD, CHR 0xFE]"

subsection \<open>Identifier texts\<close>

text \<open>
  The texts handed to \<open>_validate_rut\<close> and \<open>_format_rut\<close> are lists of \<open>uchar\<close>: the
  256 code points of Latin-1 and the two code points outside Latin-1 that \<open>str.upper\<close>
  produces from them, \<open>U+0178\<close> (from \<open>0xFF\<close>) and \<open>U+039C\<close> (from the micro sign
  \<open>0xB5\<close>). On these characters \<open>upper\<close> is modelled exactly: the small letters of
  ASCII and of Latin-1 go to their capitals, the sharp s \<open>0xDF\<close> becomes the two
  characters \<open>SS\<close>, and every other character, the two wide ones included, is kept.
  \<open>\d\<close> and \<open>int\<close> accept among them the ASCII digits only.
\<close>

datatype uchar = Latin1 char | Y_diaeresis | Capital_mu

type_synonym ustring = "uchar list"

abbreviation ustr :: "string \<Rightarrow> ustring" where
  "ustr s \<equiv> map Latin1 s"

definition py_ord :: "uchar \<Rightarrow> nat" where
  "py_ord u = (case u of Latin1 c \<Rightarrow> of_char c | Y_diaeresis \<Rightarrow> 0x178 | Capital_mu \<Rightarrow> 0x39C)"

definition py_upper_char :: "uchar \<Rightarrow> ustring" where
  "py_upper_char u =
     (case u of
        Latin1 c \<Rightarrow>
          (case map_of (zip (''abcdefghijklmnopqrstuvwxyz'' @ latin1_smalls)
                            (''ABCDEFGHIJKLMNOPQRSTUVWXYZ'' @ latin1_capitals)) c of
             Some capital \<Rightarrow> [Latin1 capital]
           | None \<Rightarrow>
               if c = CHR 0xDF then [Latin1 CHR ''S'', Latin1 CHR ''S'']
               else if c = CHR 0xB5 then [Capital_mu]
               else if c = CHR 0xFF then [Y_diaeresis]
               else [Latin1 c])
      | Y_diaeresis \<Rightarrow> [Y_diaeresis]
      | Capital_mu \<Rightarrow> [Capital_mu])"

definition py_upper :: "ustring \<Rightarrow> ustring" where
  "py_upper s = concat (map py_upper_char s)"

text \<open>\<open>s.replace(c, "")\<close> for a one-character \<open>c\<close>.\<close>

definition py_replace_del :: "'a \<Rightarrow> 'a list \<Rightarrow> 'a list" where
  "py_replace_del c s = filter (\<lambda>x. x \<noteq> c) s"

definition is_digit :: "uchar \<Rightarrow> bool" where
  "is_digit u \<longleftrightarrow> u \<in> set (ustr ''0123456789'')"

text \<open>\<open>int(digit)\<close> on a one-character string: \<open>ValueError\<close> unless it is a digit.\<close>

definition py_int_char :: "uchar \<Rightarrow> fault + int" where
  "py_int_char u =
     (if is_digit u then Inr (int (py_ord u) - 48) else Inl (Exception ''ValueError''))"

definition digit_char :: "nat \<Rightarrow> char" where
  "digit_char n = ''0123456789'' ! (n mod 10)"

fun str_nat :: "nat \<Rightarrow> string" where
  "str_nat n = (if n < 10 then [digit_char n] else str_nat (n div 10) @ [digit_char (n mod 10)])"

declare str_nat.simps [simp del]

definition py_str :: "int \<Rightarrow> string" where
  "py_str i = (if i < 0 then CHR ''-'' # str_nat (nat (- i)) else str_nat (nat i))"

text \<open>\<open>s.split(sep)\<close> for a one-character separator.\<close>

fun py_split :: "'a \<Rightarrow> 'a list \<Rightarrow> 'a list list" where
  "py_split sep [] = [[]]"
| "py_split sep (c # cs) =
     (if c = sep then [] # py_split sep cs
      else (case py_split sep cs of
              [] \<Rightarrow> [[c]]
            | p # ps \<Rightarrow> (c # p) # ps))"

subsection \<open>The regular expression of the identifier format\<close>

text \<open>
  A backtracking matcher in the style of Python's \<open>re\<close>: a pattern maps the text still to
  be read to the list of texts that may remain after it has matched, most preferred first.
  \<open>re_eol\<close> is \<open>$\<close> without \<open>MULTILINE\<close>: the end of the text, or just before a
  newline that ends it. \<open>re.match\<close> succeeds when some way of matching exists.
\<close>

type_synonym matcher = "ustring \<Rightarrow> ustring list"

definition re_class :: "(uchar \<Rightarrow> bool) \<Rightarrow> matcher" where
  "re_class p s = (case s of [] \<Rightarrow> [] | c # cs \<Rightarrow> if p c then [cs] else [])"

definition re_seq :: "matcher \<Rightarrow> matcher \<Rightarrow> matcher" where
  "re_seq a b s = concat (map b (a s))"

fun re_times :: "nat \<Rightarrow> matcher \<Rightarrow> matcher" where
  "re_times 0 a s = [s]"
| "re_times (Suc n) a s = concat (map (re_times n a) (a s))"

definition re_range :: "nat \<Rightarrow> nat \<Rightarrow> matcher \<Rightarrow> matcher" where
  "re_range lo hi a s = concat (map (\<lambda>n. re_times n a s) (rev [lo..<Suc hi]))"

definition re_eol :: matcher where
  "re_eol s = (if s = [] \<or> s = [Latin1 CHR 0x0A] then [s] else [])"

definition re_match :: "matcher \<Rightarrow> ustring \<Rightarrow> bool" where
  "re_match m s \<longleftrightarrow> m s \<noteq> []"

text \<open>\<^verbatim>\<open>^\d{7,8}-[\dK]$\<close>\<close>

definition rut_pattern :: matcher where
  "rut_pattern =
     re_seq (re_range 7 8 (re_class is_digit))
       (re_seq (re_class (\<lambda>c. c = Latin1 CHR ''-''))
          (re_seq (re_class (\<lambda>c. is_digit c \<or> c = Latin1 CHR ''K'')) re_eol))"

text \<open>The part of the pattern after the digits: \<^verbatim>\<open>-[\dK]$\<close>.\<close>

definition rut_tail :: matcher where
  "rut_tail = re_seq (re_class (\<lambda>c. c = Latin1 CHR ''-''))
          (re_seq (re_class (\<lambda>c. is_digit c \<or> c = Latin1 CHR ''K'')) re_eol)"

section \<open>Identifier validator\<close>

text \<open>
  The loop of \<open>_validate_rut\<close> over \<open>reversed(numero)\<close>, with its two variables
  \<open>suma\<close> and \<open>multiplicador\<close>.
\<close>

fun checksum_loop :: "ustring \<Rightarrow> int \<Rightarrow> int \<Rightarrow> fault + int" where
  "checksum_loop [] suma multiplicador = Inr suma"
| "checksum_loop (digit # ds) suma multiplicador =
     (case py_int_char digit of
        Inl e \<Rightarrow> Inl e
      | Inr v \<Rightarrow>
          (let suma' = suma + v * multiplicador;
               m1 = multiplicador + 1;
               m2 = (if m1 > 7 then 2 else m1)
           in checksum_loop ds suma' m2))"

definition validate_rut :: "ustring \<Rightarrow> fault + bool" where
  "validate_rut raw =
     (let rut = py_upper (py_replace_del (Latin1 CHR ''.'') (py_replace_del (Latin1 CHR '' '') raw))
      in if \<not> re_match rut_pattern rut then Inr False
         else (case py_split (Latin1 CHR ''-'') rut of
                 [numero, dv] \<Rightarrow>
                   (case checksum_loop (rev numero) 0 2 of
                      Inl e \<Rightarrow> Inl e
                    | Inr suma \<Rightarrow>
                        (let resto = suma mod 11;
                             dv_calculado = 11 - resto;
                             dv_text = (if dv_calculado = 11 then ustr ''0''
                                        else if dv_calculado = 10 then ustr ''K''
                                        else ustr (py_str dv_calculado))
                         in Inr (dv = dv_text)))
               | _ \<Rightarrow> Inl (Exception ''ValueError'')))"

text \<open>
  \<open>_format_rut\<close>: \<open>rut[:-1]\<close> is \<^const>\<open>butlast\<close> and \<open>rut[-1]\<close> is \<^const>\<open>last\<close>,
  read only when the text has at least eight characters.
\<close>

definition format_rut :: "ustring \<Rightarrow> ustring" where
  "format_rut raw =
     (let rut = py_upper (py_replace_del (Latin1 CHR ''.'') (py_replace_del (Latin1 CHR '' '') raw))
      in if Latin1 CHR ''-'' \<notin> set rut \<and> length rut \<ge> 8
         then butlast rut @ ustr ''-'' @ [last rut]
         else rut)"

subsection \<open>The validation rule as the specification words it\<close>

definition spec_clean :: "ustring \<Rightarrow> ustring" where
  "spec_clean raw =
     py_upper (filter (\<lambda>c. c \<noteq> Latin1 CHR '' '' \<and> c \<noteq> Latin1 CHR ''.'') raw)"

text \<open>Seven or eight digits, a dash, one digit or \<open>K\<close>.\<close>

definition spec_format :: "ustring \<Rightarrow> bool" where
  "spec_format s \<longleftrightarrow>
     (length s = 9 \<or> length s = 10) \<and>
     list_all is_digit (take (length s - 2) s) \<and>
     s ! (length s - 2) = Latin1 CHR ''-'' \<and>
     (is_digit (last s) \<or> last s = Latin1 CHR ''K'')"

text \<open>Weights cycling 2..7, from the rightmost digit to the left.\<close>

definition spec_weight :: "nat \<Rightarrow> int" where
  "spec_weight i = 2 + int (i mod 6)"

definition spec_checksum :: "ustring \<Rightarrow> int" where
  "spec_checksum body =
     sum_list (map (\<lambda>i. (int (py_ord (rev body ! i)) - 48) * spec_weight i) [0..<length body])"

definition spec_expected :: "ustring \<Rightarrow> uchar" where
  "spec_expected body =
     (let v = 11 - spec_checksum body mod 11
      in Latin1 (if v = 11 then CHR ''0'' else if v = 10 then CHR ''K'' else digit_char (nat v)))"

definition spec_valid :: "ustring \<Rightarrow> bool" where
  "spec_valid raw =
     (let s = spec_clean raw
      in spec_format s \<and> last s = spec_expected (take (length s - 2) s))"

section \<open>The browser session\<close>

text \<open>
  The scraper drives one browser page through Playwright. The page is a state of an
  arbitrary type \<open>'w\<close>; the record \<open>env\<close> holds what the program calls on it.
  Reading the page (URL, content, element queries, the scripts evaluated in the page) is a
  function of the state that may raise; clicking, pressing a key, waiting and taking a
  screenshot return a new state as well. The regular-expression functions of Python's
  \<open>re\<close> module that \<open>_check_error_messages\<close> calls, the clock and the configured
  \<open>ERROR_URL_PATTERN\<close> are part of the record too. Printing and logging are left out.
\<close>

type_synonym elem = nat

datatype action =
    Click elem
  | PressEscape
  | ClickBody
  | HideElement elem
  | WaitTimeout nat
  | WaitLoadState
  | Screenshot string

text \<open>The object that the script of \<open>_handle_estatus_page\<close> returns.\<close>

record specialties_info =
  hasTable :: bool
  hasModifyColumn :: bool
  hasButtons :: bool
  specialties :: "(string \<times> string list) list"
  errors :: "string list"

record 'w env =
  page_url :: "'w \<Rightarrow> string"
  page_content :: "'w \<Rightarrow> fault + string"
  query_selector :: "'w \<Rightarrow> string \<Rightarrow> fault + elem option"
  query_selector_all :: "'w \<Rightarrow> string \<Rightarrow> fault + elem list"
  element_query_selector :: "'w \<Rightarrow> elem \<Rightarrow> string \<Rightarrow> fault + elem option"
  text_content :: "'w \<Rightarrow> elem \<Rightarrow> fault + string option"
  is_visible :: "'w \<Rightarrow> elem \<Rightarrow> fault + bool"
  is_still_visible :: "'w \<Rightarrow> elem \<Rightarrow> fault + bool"
  is_loading :: "'w \<Rightarrow> fault + bool"
  eval_specialties_info :: "'w \<Rightarrow> fault + specialties_info"
  eval_table_info :: "'w \<Rightarrow> fault + unit"
  wait_for_selector :: "string \<Rightarrow> nat \<Rightarrow> 'w \<Rightarrow> (fault + elem option) \<times> 'w"
  act :: "action \<Rightarrow> 'w \<Rightarrow> (fault + unit) \<times> 'w"
  now :: "'w \<Rightarrow> string"
  re_findall :: "string \<Rightarrow> string \<Rightarrow> string list"
  re_sub_tags :: "string \<Rightarrow> string"
  error_url_pattern :: string

text \<open>
  The result dictionaries of the classifier. \<open>available\<close> is \<open>True\<close>, \<open>False\<close> or
  \<open>None\<close>; the two last fields are the keys that only some results carry.
\<close>

record outcome =
  available :: "bool option"
  status :: string
  message :: string
  url :: string
  timestamp :: string
  all_errors :: "string list option"
  estatus_info :: "specialties_info option"

text \<open>What \<open>_handle_estatus_page\<close> returns besides \<open>None\<close>.\<close>

datatype estatus = Loading outcome | Info specialties_info

subsection \<open>Programs on the page\<close>

text \<open>
  A program takes the page and returns a value or a raised fault, with the page it leaves.
\<close>

type_synonym ('w, 'a) prog = "'w \<Rightarrow> (fault + 'a) \<times> 'w"

definition p_return :: "'a \<Rightarrow> ('w, 'a) prog" where
  "p_return x w = (Inr x, w)"

definition p_bind :: "('w, 'a) prog \<Rightarrow> ('a \<Rightarrow> ('w, 'b) prog) \<Rightarrow> ('w, 'b) prog" where
  "p_bind m f w = (case m w of (Inl e, w') \<Rightarrow> (Inl e, w') | (Inr x, w') \<Rightarrow> f x w')"

definition p_probe :: "('w \<Rightarrow> fault + 'a) \<Rightarrow> ('w, 'a) prog" where
  "p_probe f w = (f w, w)"

definition p_get :: "('w \<Rightarrow> 'a) \<Rightarrow> ('w, 'a) prog" where
  "p_get f w = (Inr (f w), w)"

text \<open>\<open>try: m except: h\<close> catches every fault.\<close>

definition p_except_all :: "('w, 'a) prog \<Rightarrow> ('w, 'a) prog \<Rightarrow> ('w, 'a) prog" where
  "p_except_all m h w = (case m w of (Inl e, w') \<Rightarrow> h w' | (Inr x, w') \<Rightarrow> (Inr x, w'))"

text \<open>\<open>try: m except Exception as e: h(str(e))\<close> lets the interrupt through.\<close>

definition p_except_Exception ::
  "('w, 'a) prog \<Rightarrow> (string \<Rightarrow> ('w, 'a) prog) \<Rightarrow> ('w, 'a) prog" where
  "p_except_Exception m h w =
     (case m w of
        (Inl (Exception msg), w') \<Rightarrow> h msg w'
      | (Inl KeyboardInterrupt, w') \<Rightarrow> (Inl KeyboardInterrupt, w')
      | (Inr x, w') \<Rightarrow> (Inr x, w'))"

text \<open>\<open>try: m except KeyboardInterrupt: hk except Exception as e: he(str(e))\<close>\<close>

definition p_except_both ::
  "('w, 'a) prog \<Rightarrow> ('w, 'a) prog \<Rightarrow> (string \<Rightarrow> ('w, 'a) prog) \<Rightarrow> ('w, 'a) prog" where
  "p_except_both m hk he w =
     (case m w of
        (Inl (Exception msg), w') \<Rightarrow> he msg w'
      | (Inl KeyboardInterrupt, w') \<Rightarrow> hk w'
      | (Inr x, w') \<Rightarrow> (Inr x, w'))"

subsection \<open>More of Python's strings\<close>

text \<open>\<open>lower\<close> on the ASCII and the Latin-1 capital letters.\<close>

definition py_lower_char :: "char \<Rightarrow> char" where
  "py_lower_char c =
     (case map_of (zip (''ABCDEFGHIJKLMNOPQRSTUVWXYZ'' @ latin1_capitals)
                       (''abcdefghijklmnopqrstuvwxyz'' @ latin1_smalls)) c of
        Some l \<Rightarrow> l
      | None \<Rightarrow> c)"

definition py_lower :: "string \<Rightarrow> string" where
  "py_lower s = map py_lower_char s"

fun py_startswith :: "string \<Rightarrow> string \<Rightarrow> bool" where
  "py_startswith s [] = True"
| "py_startswith [] (p # ps) = False"
| "py_startswith (c # cs) (p # ps) = (c = p \<and> py_startswith cs ps)"

text \<open>\<open>p in s\<close>\<close>

fun py_contains :: "string \<Rightarrow> string \<Rightarrow> bool" where
  "py_contains [] p = (p = [])"
| "py_contains (c # cs) p = (py_startswith (c # cs) p \<or> py_contains cs p)"

definition py_isspace :: "char \<Rightarrow> bool" where
  "py_isspace c \<longleftrightarrow>
     c \<in> set [CHR 0x09, CHR 0x0A, CHR 0x0B, CHR 0x0C, CHR 0x0D, CHR 0x1C, CHR 0x1D, CHR 0x1E,
               CHR 0x1F, CHR 0x20, CHR 0x85, CHR 0xA0]"

definition py_strip :: "string \<Rightarrow> string" where
  "py_strip s = rev (dropWhile py_isspace (rev (dropWhile py_isspace s)))"

fun py_join :: "string \<Rightarrow> string list \<Rightarrow> string" where
  "py_join sep [] = []"
| "py_join sep [x] = x"
| "py_join sep (x # y # ys) = x @ sep @ py_join sep (y # ys)"

text \<open>The first keyword of a list that occurs in a text, as the \<open>for\<close> loops look for it.\<close>

fun first_keyword :: "string list \<Rightarrow> string \<Rightarrow> string option" where
  "first_keyword [] s = None"
| "first_keyword (k # ks) s = (if py_contains s k then Some k else first_keyword ks s)"

subsection \<open>The selector, pattern and keyword tables of the source\<close>

definition modal_selectors :: "string list" where
  \<open>modal_selectors =
     [''.modal'',
      ''.popup'',
      ''.dialog'',
      ''.alert'',
      ''[role="dialog"]'',
      ''[role="alertdialog"]'',
      ''.modal.show'',
      ''.modal.fade.show'',
      ''.modal-backdrop'',
      ''.overlay'',
      ''.alert-dialog'',
      ''.swal-modal'',
      ''.sweetalert-modal'',
      ''div[style*="z-index"]:not([style*="display: none"])'',
      ''div[style*="position: fixed"]'',
      ''div[style*="position: absolute"][style*="top: 0"]'']\<close>

definition close_selectors :: "string list" where
  \<open>close_selectors =
     [''button[data-dismiss="modal"]'',
      ''.close'',
      ''.btn-close'',
      ''.modal-close'',
      ''button.close'',
      ''[aria-label="Close"]'',
      ''[aria-label="Cerrar"]'',
      (''button:contains("'' @ [CHR 0xD7] @ ''")''),
      ''button:contains("Cerrar")'',
      ''button:contains("OK")'',
      ''button:contains("Aceptar")'',
      ''.fa-times'',
      ''.fa-close'']\<close>

definition error_selectors :: "string list" where
  \<open>error_selectors =
     [''.error'',
      ''.alert'',
      ''.warning'',
      ''[class*="error"]'',
      ''[class*="alert"]'',
      ''div[style*="color:red"]'',
      ''div[style*="color: red"]'',
      ''span[style*="color:red"]'',
      ''span[style*="color: red"]'']\<close>

definition error_patterns :: "string list" where
  \<open>error_patterns =
     [(''<b[^>]*>.*?Atenci'' @ [CHR 0xF3] @ ''n!.*?Error:.*?</b>''),
      ''Error:.*?(?=<|$)'',
      (''Atenci'' @ [CHR 0xF3] @ ''n!.*?Error:.*?(?=<|$)''),
      (''ud'' @ [CHR 0x5C] @ ''. ha excedido el tiempo m'' @ [CHR 0xE1] @ ''ximo de espera''),
      (''tiempo m'' @ [CHR 0xE1] @ ''ximo de espera''),
      ''no existen horas disponibles'',
      ''sin disponibilidad'',
      ''agendas llenas'',
      ([CHR 0x5C] @ ''*'' @ [CHR 0x5C] @ ''*Atenci'' @ [CHR 0xF3] @ ''n!'' @ [CHR 0x5C] @ ''*'' @ [CHR 0x5C] @ ''*'' @ [CHR 0x5C] @ ''s*Error:.*?(?=<|$)''),
      (''Atenci'' @ [CHR 0xF3] @ ''n!'' @ [CHR 0x5C] @ ''s*Error:.*?Ud'' @ [CHR 0x5C] @ ''. ha excedido el tiempo m'' @ [CHR 0xE1] @ ''ximo de espera''),
      (''Buscando especialidades'' @ [CHR 0x5C] @ ''.'' @ [CHR 0x5C] @ ''.'' @ [CHR 0x5C] @ ''.'' @ [CHR 0x5C] @ ''.'')]\<close>

definition no_availability_keywords :: "string list" where
  \<open>no_availability_keywords =
     [''no existen horas disponibles'',
      ''sin disponibilidad'',
      ''no hay citas'',
      ''agendas llenas'',
      ''sin cupos'',
      (''ud. ha excedido el tiempo m'' @ [CHR 0xE1] @ ''ximo de espera''),
      (''tiempo m'' @ [CHR 0xE1] @ ''ximo de espera'')]\<close>

definition availability_keywords :: "string list" where
  \<open>availability_keywords =
     [''seleccione fecha'',
      ''horarios disponibles'',
      ''agendar cita'',
      ''reservar hora'']\<close>

definition next_step_selectors :: "string list" where
  \<open>next_step_selectors =
     [''select[name*="fecha"]'',
      ''input[type="date"]'',
      ''.calendar'',
      ''#calendario'',
      ''select[name*="hora"]'']\<close>

definition primary_button_selector :: string where
  \<open>primary_button_selector = ''#dgGrilla_btIngresar_0''\<close>

definition alternative_selectors :: "string list" where
  \<open>alternative_selectors =
     [''input[id="dgGrilla_btIngresar_0"]'',
      ''input[name="dgGrilla$ctl02$btIngresar"]'',
      ''.BotonIngresar'',
      ''input.BotonIngresar'',
      ''th:contains("Modificar") ~ td input[type="submit"]'',
      ''table input[id*="btIngresar"]'']\<close>


section \<open>Interstitial guard\<close>

text \<open>
  The first method of \<open>_close_modal\<close>: the loop over the close selectors. Any fault in
  a round is swallowed by its bare \<open>except\<close> and the next selector is tried. The result
  says whether a close control was clicked.
\<close>

fun close_by_button :: "'w env \<Rightarrow> elem \<Rightarrow> string list \<Rightarrow> ('w, bool) prog" where
  "close_by_button b modal [] w = (Inr False, w)"
| "close_by_button b modal (close_selector # rest) w =
     (case element_query_selector b w modal close_selector of
        Inl e \<Rightarrow> close_by_button b modal rest w
      | Inr None \<Rightarrow> close_by_button b modal rest w
      | Inr (Some close_button) \<Rightarrow>
          (case act b (Click close_button) w of
             (Inl e, w1) \<Rightarrow> close_by_button b modal rest w1
           | (Inr u, w1) \<Rightarrow>
               (case act b (WaitTimeout 500) w1 of
                  (Inl e, w2) \<Rightarrow> close_by_button b modal rest w2
                | (Inr u', w2) \<Rightarrow> (Inr True, w2))))"

definition close_modal :: "'w env \<Rightarrow> elem \<Rightarrow> ('w, bool) prog" where
  "close_modal b modal =
     p_except_Exception
       (p_bind (close_by_button b modal close_selectors) (\<lambda>clicked.
          if clicked then p_return True
          else
            p_bind (act b PressEscape) (\<lambda>_.
            p_bind (act b (WaitTimeout 500)) (\<lambda>_.
            p_bind (p_probe (\<lambda>w. is_still_visible b w modal)) (\<lambda>still.
              if \<not> still then p_return True
              else
                p_bind (act b ClickBody) (\<lambda>_.
                p_bind (act b (WaitTimeout 500)) (\<lambda>_.
                p_bind (act b (HideElement modal)) (\<lambda>_.
                p_return True))))))))
       (\<lambda>msg. p_return False)"

text \<open>
  The two nested loops of \<open>_detect_and_close_modals\<close>. They carry the variable
  \<open>modal_found\<close>, which keeps its value when a fault ends the inner loop; the second
  component of the result is the fault that ended the loop, if any. The inner
  \<open>except Exception\<close> goes on with the next selector and lets the interrupt through.
\<close>

fun scan_elements ::
  "'w env \<Rightarrow> elem list \<Rightarrow> bool \<Rightarrow> 'w \<Rightarrow> (bool \<times> fault option) \<times> 'w" where
  "scan_elements b [] modal_found w = ((modal_found, None), w)"
| "scan_elements b (modal # rest) modal_found w =
     (case is_visible b w modal of
        Inl e \<Rightarrow> ((modal_found, Some e), w)
      | Inr False \<Rightarrow> scan_elements b rest modal_found w
      | Inr True \<Rightarrow>
          (case close_modal b modal w of
             (Inl e, w1) \<Rightarrow> ((True, Some e), w1)
           | (Inr False, w1) \<Rightarrow> scan_elements b rest True w1
           | (Inr True, w1) \<Rightarrow>
               (case act b (WaitTimeout 1000) w1 of
                  (Inl e, w2) \<Rightarrow> ((True, Some e), w2)
                | (Inr u, w2) \<Rightarrow> scan_elements b rest True w2)))"

fun scan_selectors ::
  "'w env \<Rightarrow> string list \<Rightarrow> bool \<Rightarrow> 'w \<Rightarrow> (bool \<times> fault option) \<times> 'w" where
  "scan_selectors b [] modal_found w = ((modal_found, None), w)"
| "scan_selectors b (selector # rest) modal_found w =
     (case query_selector_all b w selector of
        Inl e \<Rightarrow>
          (case e of
             Exception msg \<Rightarrow> scan_selectors b rest modal_found w
           | KeyboardInterrupt \<Rightarrow> ((modal_found, Some KeyboardInterrupt), w))
      | Inr modals \<Rightarrow>
          (case scan_elements b modals modal_found w of
             (r, w1) \<Rightarrow>
               (case snd r of
                  None \<Rightarrow> scan_selectors b rest (fst r) w1
                | Some e \<Rightarrow>
                    (case e of
                       Exception msg \<Rightarrow> scan_selectors b rest (fst r) w1
                     | KeyboardInterrupt \<Rightarrow> ((fst r, Some KeyboardInterrupt), w1)))))"

definition detect_and_close_modals :: "'w env \<Rightarrow> ('w, bool) prog" where
  "detect_and_close_modals b w =
     (case scan_selectors b modal_selectors False w of
        ((modal_found, None), w1) \<Rightarrow> (Inr modal_found, w1)
      | ((modal_found, Some (Exception msg)), w1) \<Rightarrow> (Inr False, w1)
      | ((modal_found, Some KeyboardInterrupt), w1) \<Rightarrow> (Inl KeyboardInterrupt, w1))"

section \<open>Page classifier\<close>

definition mk_outcome :: "bool option \<Rightarrow> string \<Rightarrow> string \<Rightarrow> string \<Rightarrow> string \<Rightarrow> outcome" where
  "mk_outcome a s m u t =
     \<lparr>available = a, status = s, message = m, url = u, timestamp = t,
      all_errors = None, estatus_info = None\<rparr>"

subsection \<open>The error-message scan\<close>

text \<open>
  The loops of \<open>_check_error_messages\<close> that fill \<open>found_errors\<close>. A fault while the
  elements of a selector are read ends that selector only (bare \<open>except\<close>), and what was
  appended before stays.
\<close>

fun collect_element_texts :: "'w env \<Rightarrow> 'w \<Rightarrow> elem list \<Rightarrow> string list \<Rightarrow> string list" where
  "collect_element_texts b w [] found_errors = found_errors"
| "collect_element_texts b w (element # rest) found_errors =
     (case text_content b w element of
        Inl e \<Rightarrow> found_errors
      | Inr None \<Rightarrow> collect_element_texts b w rest found_errors
      | Inr (Some text) \<Rightarrow>
          collect_element_texts b w rest
            (if text \<noteq> [] \<and> py_strip text \<noteq> [] then found_errors @ [py_strip text]
             else found_errors))"

fun collect_selector_errors :: "'w env \<Rightarrow> 'w \<Rightarrow> string list \<Rightarrow> string list \<Rightarrow> string list" where
  "collect_selector_errors b w [] found_errors = found_errors"
| "collect_selector_errors b w (selector # rest) found_errors =
     (case query_selector_all b w selector of
        Inl e \<Rightarrow> collect_selector_errors b w rest found_errors
      | Inr elements \<Rightarrow>
          collect_selector_errors b w rest (collect_element_texts b w elements found_errors))"

fun collect_matches :: "'w env \<Rightarrow> string list \<Rightarrow> string list \<Rightarrow> string list" where
  "collect_matches b [] found_errors = found_errors"
| "collect_matches b (match # rest) found_errors =
     (let clean_text = py_strip (re_sub_tags b match)
      in collect_matches b rest
           (if clean_text \<noteq> [] \<and> clean_text \<notin> set found_errors
            then found_errors @ [clean_text] else found_errors))"

fun collect_pattern_errors :: "'w env \<Rightarrow> string \<Rightarrow> string list \<Rightarrow> string list \<Rightarrow> string list" where
  "collect_pattern_errors b page [] found_errors = found_errors"
| "collect_pattern_errors b page (pattern # rest) found_errors =
     collect_pattern_errors b page rest
       (collect_matches b (re_findall b pattern page) found_errors)"

definition error_outcome ::
  "bool option \<Rightarrow> string \<Rightarrow> string \<Rightarrow> string list \<Rightarrow> string \<Rightarrow> string \<Rightarrow> outcome" where
  "error_outcome a s m found_errors u t =
     \<lparr>available = a, status = s, message = m, url = u, timestamp = t,
      all_errors = Some found_errors, estatus_info = None\<rparr>"

definition check_error_messages :: "'w env \<Rightarrow> ('w, outcome option) prog" where
  "check_error_messages b =
     p_except_Exception
       (p_bind (p_probe (page_content b)) (\<lambda>page.
        p_bind (p_get (\<lambda>w. collect_selector_errors b w error_selectors [])) (\<lambda>by_selector.
          (case collect_pattern_errors b page error_patterns by_selector of
             [] \<Rightarrow> p_return None
           | first # others \<Rightarrow>
               (let found_errors = first # others;
                    error_text_lower = py_lower (py_join '' '' found_errors)
                in if py_contains error_text_lower (''tiempo m'' @ [CHR 0xE1] @ ''ximo de espera'')
                      \<or> py_contains error_text_lower ''excedido''
                   then p_get (\<lambda>w. Some (error_outcome (Some False) ''timeout_error''
                          (''Error de timeout detectado: '' @ first) found_errors
                          (page_url b w) (now b w)))
                   else if py_contains error_text_lower ''no existen horas''
                      \<or> py_contains error_text_lower ''sin disponibilidad''
                   then p_get (\<lambda>w. Some (error_outcome (Some False) ''no_availability_error''
                          (''Sin disponibilidad: '' @ first) found_errors
                          (page_url b w) (now b w)))
                   else p_get (\<lambda>w. Some (error_outcome None ''unknown_error''
                          (''Error desconocido: '' @ first) found_errors
                          (page_url b w) (now b w))))))))
       (\<lambda>msg. p_return None)"

subsection \<open>The status page\<close>

definition handle_estatus_page :: "'w env \<Rightarrow> ('w, estatus option) prog" where
  "handle_estatus_page b =
     p_except_Exception
       (p_bind (p_probe (is_loading b)) (\<lambda>loading.
        p_bind (if loading
                then p_bind (act b (WaitTimeout 3000)) (\<lambda>_. p_probe (is_loading b))
                else p_return False) (\<lambda>still_loading.
          if still_loading
          then p_get (\<lambda>w. Some (Loading (mk_outcome None ''loading_specialties''
                 (''La p'' @ [CHR 0xE1] @ ''gina est'' @ [CHR 0xE1] @ '' cargando especialidades'')
                 (page_url b w) (now b w))))
          else p_bind (p_probe (eval_specialties_info b)) (\<lambda>info. p_return (Some (Info info))))))
       (\<lambda>msg. p_return None)"

subsection \<open>Keywords and next-step controls\<close>

text \<open>The loop over \<open>next_step_selectors\<close>: the first selector that finds an element.\<close>

fun first_present :: "'w env \<Rightarrow> 'w \<Rightarrow> string list \<Rightarrow> fault + string option" where
  "first_present b w [] = Inr None"
| "first_present b w (selector # rest) =
     (case query_selector b w selector of
        Inl e \<Rightarrow> Inl e
      | Inr (Some element) \<Rightarrow> Inr (Some selector)
      | Inr None \<Rightarrow> first_present b w rest)"

text \<open>
  The part that \<open>check_availability\<close> and \<open>_continue_availability_check\<close> have in
  common, word for word: the keyword scans of the lower-cased content, the structural probe
  and the uncertain result.
\<close>

definition classify_content :: "'w env \<Rightarrow> string \<Rightarrow> ('w, outcome) prog" where
  "classify_content b current_url =
     p_bind (p_probe (page_content b)) (\<lambda>page.
       (let content_lower = py_lower page
        in case first_keyword no_availability_keywords content_lower of
             Some keyword \<Rightarrow>
               p_get (\<lambda>w. mk_outcome (Some False) ''no_availability_content''
                 (''Detectado en contenido: '' @ keyword) current_url (now b w))
           | None \<Rightarrow>
               (case first_keyword availability_keywords content_lower of
                  Some keyword \<Rightarrow>
                    p_get (\<lambda>w. mk_outcome (Some True) ''availability_found''
                      (''Disponibilidad detectada: '' @ keyword) current_url (now b w))
                | None \<Rightarrow>
                    p_bind (p_probe (\<lambda>w. first_present b w next_step_selectors)) (\<lambda>hit.
                      case hit of
                        Some selector \<Rightarrow>
                          p_get (\<lambda>w. mk_outcome (Some True) ''possible_availability''
                            (''Elemento de selecci'' @ [CHR 0xF3] @ ''n encontrado: '' @ selector)
                            current_url (now b w))
                      | None \<Rightarrow>
                          p_get (\<lambda>w. mk_outcome None ''uncertain''
                            (''No se pudo determinar la disponibilidad autom'' @ [CHR 0xE1] @
                               ''ticamente'')
                            current_url (now b w))))))"

definition continue_availability_check :: "'w env \<Rightarrow> ('w, outcome) prog" where
  "continue_availability_check b =
     p_except_Exception
       (p_bind (p_get (page_url b)) (\<lambda>current_url. classify_content b current_url))
       (\<lambda>msg. p_get (\<lambda>w. mk_outcome None ''error''
          (''Error durante verificaci'' @ [CHR 0xF3] @ ''n continua: '' @ msg)
          (page_url b w) (now b w)))"

section \<open>Click-until-clear loop\<close>

text \<open>How one round of the \<open>while True\<close> loop ends: \<open>continue\<close> or \<open>return\<close>.\<close>

datatype round = Continue | Return outcome

text \<open>
  The search for the button: the primary selector first; the alternatives only when the
  primary raised. Both \<open>except\<close> clauses are bare, so no fault leaves the search.
\<close>

fun find_alternative :: "'w env \<Rightarrow> string list \<Rightarrow> ('w, elem option) prog" where
  "find_alternative b [] w = (Inr None, w)"
| "find_alternative b (selector # rest) w =
     (case wait_for_selector b selector 3000 w of
        (Inl e, w1) \<Rightarrow> find_alternative b rest w1
      | (Inr None, w1) \<Rightarrow> find_alternative b rest w1
      | (Inr (Some button), w1) \<Rightarrow> (Inr (Some button), w1))"

definition find_button :: "'w env \<Rightarrow> ('w, elem option) prog" where
  "find_button b =
     p_except_all (wait_for_selector b primary_button_selector 5000)
       (find_alternative b alternative_selectors)"

text \<open>
  One round of the loop, for the value that \<open>retry_count\<close> has after its increment,
  in the three stretches between its decisions: finding the button (with the look at the
  tables in the first round), the click between two runs of the guard, and the screenshot
  with the error scan.
\<close>

definition locate_button :: "'w env \<Rightarrow> nat \<Rightarrow> ('w, elem option) prog" where
  "locate_button b retry_count =
     p_bind (if retry_count = 1 then p_probe (eval_table_info b) else p_return ()) (\<lambda>_.
     find_button b)"

definition guarded_click :: "'w env \<Rightarrow> elem \<Rightarrow> ('w, bool) prog" where
  "guarded_click b button =
     p_bind (detect_and_close_modals b) (\<lambda>_.
     p_bind (act b (Click button)) (\<lambda>_.
     p_bind (act b WaitLoadState) (\<lambda>_.
     detect_and_close_modals b)))"

definition scan_after_click :: "'w env \<Rightarrow> ('w, outcome option) prog" where
  "scan_after_click b =
     p_bind (act b (Screenshot ''after_click'')) (\<lambda>_. check_error_messages b)"

definition click_round :: "'w env \<Rightarrow> nat \<Rightarrow> ('w, round) prog" where
  "click_round b retry_count =
     p_except_both
       (p_bind (locate_button b retry_count) (\<lambda>especialidad_button.
          case especialidad_button of
            None \<Rightarrow> p_bind (act b (WaitTimeout 3000)) (\<lambda>_. p_return Continue)
          | Some button \<Rightarrow>
              p_bind (guarded_click b button) (\<lambda>modal_appeared.
                if modal_appeared
                then p_bind (act b (WaitTimeout 2000)) (\<lambda>_. p_return Continue)
                else
                  p_bind (scan_after_click b) (\<lambda>error_result.
                    case error_result of
                      Some r \<Rightarrow>
                        if status r \<in> set [''timeout_error'', ''estatus_error'']
                        then p_bind (act b (WaitTimeout 2000)) (\<lambda>_. p_return Continue)
                        else p_return (Return r)
                    | None \<Rightarrow>
                        p_bind (continue_availability_check b) (\<lambda>r.
                        p_return (Return r))))))
       (p_get (\<lambda>w. Return (mk_outcome None ''user_interrupted''
          (''Usuario detuvo los reintentos despu'' @ [CHR 0xE9] @ ''s de '' @
             py_str (int retry_count) @ '' intentos'')
          (page_url b w) (now b w))))
       (\<lambda>msg. p_bind (act b (WaitTimeout 3000)) (\<lambda>_. p_return Continue))"

text \<open>
  The loop itself has no bound in the source. Here it runs for at most \<open>fuel\<close> rounds and
  \<open>None\<close> says that it was still retrying then. The third argument is \<open>retry_count\<close>
  before the round.
\<close>

fun click_especialidad_button_with_modal_retry ::
  "'w env \<Rightarrow> nat \<Rightarrow> nat \<Rightarrow> 'w \<Rightarrow> ((fault + outcome) \<times> 'w) option" where
  "click_especialidad_button_with_modal_retry b 0 retry_count w = None"
| "click_especialidad_button_with_modal_retry b (Suc fuel) retry_count w =
     (case click_round b (retry_count + 1) w of
        (Inl e, w1) \<Rightarrow> Some (Inl e, w1)
      | (Inr (Return r), w1) \<Rightarrow> Some (Inr r, w1)
      | (Inr Continue, w1) \<Rightarrow>
          click_especialidad_button_with_modal_retry b fuel (retry_count + 1) w1)"

section \<open>The classification entry point\<close>

text \<open>
  The body of the \<open>try\<close> block of \<open>check_availability\<close> up to the call of the click
  loop: \<open>Some r\<close> when it returns \<open>r\<close> before that, \<open>None\<close> when it reaches the loop.
\<close>

definition before_click_loop :: "'w env \<Rightarrow> ('w, outcome option) prog" where
  "before_click_loop b =
     p_bind (detect_and_close_modals b) (\<lambda>modal_found.
     p_bind (if modal_found then act b (WaitTimeout 2000) else p_return ()) (\<lambda>_.
     p_bind (p_get (page_url b)) (\<lambda>current_url.
     p_bind (act b (Screenshot ''result'')) (\<lambda>_.
       if py_contains current_url ''paso-1.aspx'' \<or> py_contains current_url ''estatus.aspx''
       then
         p_bind (check_error_messages b) (\<lambda>error_result.
           case error_result of
             Some r \<Rightarrow> p_return (Some r)
           | None \<Rightarrow>
               if py_contains current_url ''estatus.aspx''
               then
                 p_bind (handle_estatus_page b) (\<lambda>page_info.
                   case page_info of
                     Some (Info info) \<Rightarrow>
                       if errors info \<noteq> []
                       then p_get (\<lambda>w. Some
                              \<lparr>available = Some False, status = ''estatus_error'',
                               message = ''Errores en p'' @ [CHR 0xE1] @ ''gina de estatus: '' @
                                 py_join ''; '' (errors info),
                               url = current_url, timestamp = now b w,
                               all_errors = None, estatus_info = Some info\<rparr>)
                       else p_return None
                   | Some (Loading d) \<Rightarrow> p_return None
                   | None \<Rightarrow> p_return None)
               else p_return None)
       else if py_contains current_url (error_url_pattern b)
       then p_get (\<lambda>w. Some (mk_outcome (Some False) ''no_availability''
              ''No existen horas disponibles en la especialidad solicitada''
              current_url (now b w)))
       else p_bind (classify_content b current_url) (\<lambda>r. p_return (Some r))))))"

definition availability_error :: "'w env \<Rightarrow> string \<Rightarrow> 'w \<Rightarrow> (fault + outcome) \<times> 'w" where
  "availability_error b msg w =
     (Inr (mk_outcome None ''error'' (''Error durante verificaci'' @ [CHR 0xF3] @ ''n: '' @ msg)
        (page_url b w) (now b w)), w)"

definition check_availability ::
  "'w env \<Rightarrow> nat \<Rightarrow> 'w \<Rightarrow> ((fault + outcome) \<times> 'w) option" where
  "check_availability b fuel w =
     (case before_click_loop b w of
        (Inl (Exception msg), w1) \<Rightarrow> Some (availability_error b msg w1)
      | (Inl KeyboardInterrupt, w1) \<Rightarrow> Some (Inl KeyboardInterrupt, w1)
      | (Inr (Some r), w1) \<Rightarrow> Some (Inr r, w1)
      | (Inr None, w1) \<Rightarrow>
          (case click_especialidad_button_with_modal_retry b fuel 0 w1 of
             None \<Rightarrow> None
           | Some (Inl (Exception msg), w2) \<Rightarrow> Some (availability_error b msg w2)
           | Some (Inl KeyboardInterrupt, w2) \<Rightarrow> Some (Inl KeyboardInterrupt, w2)
           | Some (Inr r, w2) \<Rightarrow> Some (Inr r, w2)))"

section \<open>Session decision engine, continuous mode\<close>

definition handle_error_automatically :: "'w env \<Rightarrow> outcome \<Rightarrow> ('w, string) prog" where
  "handle_error_automatically b error_info =
     p_bind (detect_and_close_modals b) (\<lambda>modal_closed.
       if modal_closed then p_return ''retry_without_restart''
       else
         (let error_status = status error_info
          in if error_status \<in> set [''timeout_error'', ''estatus_error'']
             then p_return ''retry_without_restart''
             else if error_status \<in> set [''no_availability_error'', ''no_availability_content'']
             then p_return ''continue''
             else p_return ''retry_without_restart''))"

section \<open>What the guard is specified to report\<close>

text \<open>
  What a reading of the page \<open>w\<close> finds, in the order of the scan: the elements of a
  selector are asked one after the other whether they are visible, and the first that
  answers true is the overlay found. A query or a visibility script that raises an
  \<open>Exception\<close> ends its selector; one that raises the interrupt ends the reading.
\<close>

datatype sighting = Nothing_visible | Interrupted | Overlay elem

fun first_visible :: "'w env \<Rightarrow> 'w \<Rightarrow> elem list \<Rightarrow> fault + elem option" where
  "first_visible b w [] = Inr None"
| "first_visible b w (m # rest) =
     (case is_visible b w m of
        Inl e \<Rightarrow> Inl e
      | Inr v \<Rightarrow> if v then Inr (Some m) else first_visible b w rest)"

fun first_overlay :: "'w env \<Rightarrow> 'w \<Rightarrow> string list \<Rightarrow> sighting" where
  "first_overlay b w [] = Nothing_visible"
| "first_overlay b w (selector # rest) =
     (case query_selector_all b w selector of
        Inl e \<Rightarrow>
          (case e of
             Exception msg \<Rightarrow> first_overlay b w rest
           | KeyboardInterrupt \<Rightarrow> Interrupted)
      | Inr modals \<Rightarrow>
          (case first_visible b w modals of
             Inl e \<Rightarrow>
               (case e of
                  Exception msg \<Rightarrow> first_overlay b w rest
                | KeyboardInterrupt \<Rightarrow> Interrupted)
           | Inr None \<Rightarrow> first_overlay b w rest
           | Inr (Some m) \<Rightarrow> Overlay m))"

definition sighting :: "'w env \<Rightarrow> 'w \<Rightarrow> sighting" where
  "sighting b w = first_overlay b w modal_selectors"

text \<open>
  An overlay is visible on page \<open>w\<close> when one of the modal selectors finds an element
  whose visibility script answers true. \<open>probes_answer\<close> says that on \<open>w\<close> every
  query and every visibility script of the scan answers instead of raising.
\<close>

definition visible_in :: "'w env \<Rightarrow> 'w \<Rightarrow> string \<Rightarrow> bool" where
  "visible_in b w selector =
     (case query_selector_all b w selector of
        Inl e \<Rightarrow> False
      | Inr modals \<Rightarrow> list_ex (\<lambda>m. is_visible b w m = Inr True) modals)"

definition overlay_visible :: "'w env \<Rightarrow> 'w \<Rightarrow> bool" where
  "overlay_visible b w = list_ex (visible_in b w) modal_selectors"

definition probe_answers :: "'w env \<Rightarrow> 'w \<Rightarrow> string \<Rightarrow> bool" where
  "probe_answers b w selector =
     (case query_selector_all b w selector of
        Inl e \<Rightarrow> False
      | Inr modals \<Rightarrow>
          list_all (\<lambda>m. case is_visible b w m of Inl e \<Rightarrow> False | Inr v \<Rightarrow> True) modals)"

definition probes_answer :: "'w env \<Rightarrow> 'w \<Rightarrow> bool" where
  "probes_answer b w = list_all (probe_answers b w) modal_selectors"

text \<open>
  \<open>uninterrupted b\<close>: on no page does a query, a visibility script or an action of the
  browser \<open>b\<close> raise the interrupt.
\<close>

definition uninterrupted :: "'w env \<Rightarrow> bool" where
  "uninterrupted b \<longleftrightarrow>
     (\<forall>w selector. query_selector_all b w selector \<noteq> Inl KeyboardInterrupt) \<and>
     (\<forall>w m. is_visible b w m \<noteq> Inl KeyboardInterrupt) \<and>
     (\<forall>w m. is_still_visible b w m \<noteq> Inl KeyboardInterrupt) \<and>
     (\<forall>a w. fst (act b a w) \<noteq> Inl KeyboardInterrupt)"

section \<open>The relation between the two result fields\<close>

text \<open>
  \<open>available\<close> as the status determines it: true for the two statuses of found
  availability, false for the five statuses of absence and of page errors, \<open>None\<close>
  for every other status.
\<close>

definition consistent :: "outcome \<Rightarrow> bool" where
  "consistent r \<longleftrightarrow>
     available r =
       (if status r \<in> set [''availability_found'', ''possible_availability''] then Some True
        else if status r \<in> set [''no_availability'', ''no_availability_content'',
                  ''no_availability_error'', ''timeout_error'', ''estatus_error'']
        then Some False
        else None)"

text \<open>\<open>returns m P\<close>: every value that the program \<open>m\<close> returns satisfies \<open>P\<close>.\<close>

definition returns :: "('w, 'a) prog \<Rightarrow> ('a \<Rightarrow> bool) \<Rightarrow> bool" where
  "returns m P \<longleftrightarrow> (\<forall>w x w1. m w = (Inr x, w1) \<longrightarrow> P x)"

text \<open>\<open>contained m\<close>: the program \<open>m\<close> raises no \<open>Exception\<close>.\<close>

definition contained :: "('w, 'a) prog \<Rightarrow> bool" where
  "contained m \<longleftrightarrow> (\<forall>w msg w1. m w \<noteq> (Inl (Exception msg), w1))"

section \<open>A test double of the browser\<close>

text \<open>
  A small page for concrete runs. Its overlays are the elements that \<open>.modal\<close> finds;
  they have no close control and stay until they are hidden by script. The button of the
  click loop is element 1, found by the primary selector when it is there, and a click on
  it opens the overlays of \<open>s_on_click\<close>. An element of class \<open>error\<close> (element 50)
  shows \<open>s_error_text\<close>. No regular expression matches.
\<close>

record sim =
  s_url :: string
  s_content :: "fault + string"
  s_overlays :: "elem list"
  s_on_click :: "elem list"
  s_button :: bool
  s_error_text :: "string option"

definition sim_act :: "action \<Rightarrow> sim \<Rightarrow> (fault + unit) \<times> sim" where
  "sim_act a w =
     (case a of
        Click el \<Rightarrow>
          if el = 1 then (Inr (), w\<lparr>s_overlays := s_on_click w, s_on_click := []\<rparr>)
          else (Inr (), w)
      | HideElement el \<Rightarrow> (Inr (), w\<lparr>s_overlays := removeAll el (s_overlays w)\<rparr>)
      | _ \<Rightarrow> (Inr (), w))"

definition sim_env :: "sim env" where
  "sim_env =
     \<lparr>page_url = s_url,
      page_content = s_content,
      query_selector = (\<lambda>w selector. Inr None),
      query_selector_all = (\<lambda>w selector.
        if selector = ''.modal'' then Inr (s_overlays w)
        else if selector = ''.error''
        then (case s_error_text w of None \<Rightarrow> Inr [] | Some t \<Rightarrow> Inr [50])
        else Inr []),
      element_query_selector = (\<lambda>w el selector. Inr None),
      text_content = (\<lambda>w el. if el = 50 then Inr (s_error_text w) else Inr None),
      is_visible = (\<lambda>w el. Inr (el \<in> set (s_overlays w))),
      is_still_visible = (\<lambda>w el. Inr (el \<in> set (s_overlays w))),
      is_loading = (\<lambda>w. Inr False),
      eval_specialties_info = (\<lambda>w. Inr
        \<lparr>hasTable = False, hasModifyColumn = False, hasButtons = False,
         specialties = [], errors = []\<rparr>),
      eval_table_info = (\<lambda>w. Inr ()),
      wait_for_selector = (\<lambda>selector timeout w.
        if s_button w \<and> selector = primary_button_selector then (Inr (Some 1), w)
        else (Inl (Exception ''TimeoutError''), w)),
      act = sim_act,
      now = (\<lambda>w. ''2025-01-01T00:00:00''),
      re_findall = (\<lambda>pattern text. []),
      re_sub_tags = (\<lambda>text. text),
      error_url_pattern = ''paso-1.aspx?Error=No%20existen%20horas%20disponibles''\<rparr>"

definition sim_page :: "string \<Rightarrow> string \<Rightarrow> sim" where
  "sim_page u c =
     \<lparr>s_url = u, s_content = Inr c, s_overlays = [], s_on_click = [], s_button = False,
      s_error_text = None\<rparr>"

text \<open>
  Two variations of the page: one whose element queries are interrupted, and one on which
  the visibility script of element 3 fails.
\<close>

definition sim_interrupted :: "sim env" where
  "sim_interrupted = sim_env\<lparr>query_selector_all := (\<lambda>w selector. Inl KeyboardInterrupt)\<rparr>"


section \<open>Properties of the identifier validator\<close>

subsection \<open>The pattern accepts exactly the identifier format\<close>

lemma re_class_drop:
  "re_class p (drop n s) = (if n < length s \<and> p (s ! n) then [drop (Suc n) s] else [])"
proof (cases "n < length s")
  case True
  then have "drop n s = s ! n # drop (Suc n) s" by (simp add: Cons_nth_drop_Suc)
  then show ?thesis using True by (simp add: re_class_def)
next
  case False
  then show ?thesis by (simp add: re_class_def)
qed

lemma re_class_Nil: "re_class p [] = []"
  by (simp add: re_class_def)

lemma re_class_Cons: "re_class p (c # cs) = (if p c then [cs] else [])"
  by (simp add: re_class_def)

lemma re_times_class:
  "re_times n (re_class p) s =
     (if n \<le> length s \<and> list_all p (take n s) then [drop n s] else [])"
proof (induction n arbitrary: s)
  case 0
  then show ?case by simp
next
  case (Suc n)
  show ?case
  proof (cases s)
    case Nil
    then show ?thesis by (simp add: re_class_Nil)
  next
    case (Cons c cs)
    show ?thesis
    proof (cases "p c")
      case True
      then show ?thesis using Cons Suc [of cs] by (simp add: re_class_Cons)
    next
      case False
      then show ?thesis using Cons by (simp add: re_class_Cons)
    qed
  qed
qed

lemma re_range_7_8:
  "re_range 7 8 (re_class p) s =
     (if 8 \<le> length s \<and> list_all p (take 8 s) then [drop 8 s] else []) @
     (if 7 \<le> length s \<and> list_all p (take 7 s) then [drop 7 s] else [])"
proof -
  have "[7..<Suc 8] = [7, 8]" by (simp add: upt_rec)
  then show ?thesis by (simp add: re_range_def re_times_class)
qed


lemma rut_tail_iff:
  "rut_tail t \<noteq> [] \<longleftrightarrow>
     (\<exists>d tl. t = Latin1 CHR ''-'' # d # tl \<and> (is_digit d \<or> d = Latin1 CHR ''K'') \<and> (tl = [] \<or> tl = [Latin1 CHR 0x0A]))"
proof (cases t)
  case Nil
  then show ?thesis by (simp add: rut_tail_def re_seq_def re_class_Nil)
next
  case (Cons a u)
  note t = this
  show ?thesis
  proof (cases u)
    case Nil
    then show ?thesis using t by (simp add: rut_tail_def re_seq_def re_class_Nil re_class_Cons)
  next
    case (Cons d tl)
    then show ?thesis using t
      by (auto simp: rut_tail_def re_seq_def re_class_Nil re_class_Cons re_eol_def)
  qed
qed

lemma rut_match_iff:
  "re_match rut_pattern s \<longleftrightarrow>
     (\<exists>body d tl. s = body @ Latin1 CHR ''-'' # d # tl \<and> (length body = 7 \<or> length body = 8) \<and>
        list_all is_digit body \<and> (is_digit d \<or> d = Latin1 CHR ''K'') \<and> (tl = [] \<or> tl = [Latin1 CHR 0x0A]))"
  (is "?L \<longleftrightarrow> ?R")
proof
  assume ?L
  then have "(8 \<le> length s \<and> list_all is_digit (take 8 s) \<and> rut_tail (drop 8 s) \<noteq> []) \<or>
             (7 \<le> length s \<and> list_all is_digit (take 7 s) \<and> rut_tail (drop 7 s) \<noteq> [])"
    unfolding re_match_def rut_pattern_def rut_tail_def [symmetric]
    by (simp add: re_seq_def [of "re_range 7 8 (re_class is_digit)"] re_range_7_8 split: if_splits)
  then obtain n where n: "n = 7 \<or> n = 8" "n \<le> length s" "list_all is_digit (take n s)"
       "rut_tail (drop n s) \<noteq> []" by blast
  from n(4) obtain d tl where "drop n s = Latin1 CHR ''-'' # d # tl" "is_digit d \<or> d = Latin1 CHR ''K''"
       "tl = [] \<or> tl = [Latin1 CHR 0x0A]" unfolding rut_tail_iff by blast
  moreover have "s = take n s @ drop n s" by simp
  ultimately have "s = take n s @ Latin1 CHR ''-'' # d # tl" by simp
  then show ?R using n \<open>is_digit d \<or> d = Latin1 CHR ''K''\<close> \<open>tl = [] \<or> tl = [Latin1 CHR 0x0A]\<close>
    by (intro exI [of _ "take n s"] exI [of _ d] exI [of _ tl]) auto
next
  assume ?R
  then obtain body d tl where s: "s = body @ Latin1 CHR ''-'' # d # tl" and
    len: "length body = 7 \<or> length body = 8" and dig: "list_all is_digit body" and
    rest: "is_digit d \<or> d = Latin1 CHR ''K''" "tl = [] \<or> tl = [Latin1 CHR 0x0A]" by blast
  have tail: "rut_tail (Latin1 CHR ''-'' # d # tl) \<noteq> []" unfolding rut_tail_iff using rest by blast
  have nd: "\<not> is_digit (Latin1 CHR ''-'')" by (simp add: is_digit_def)
  from len show ?L
  proof
    assume l: "length body = 7"
    then have "take 7 s = body" "drop 7 s = Latin1 CHR ''-'' # d # tl" "7 \<le> length s" using s by auto
    then show ?L using tail dig
      unfolding re_match_def rut_pattern_def rut_tail_def [symmetric]
      by (simp add: re_seq_def [of "re_range 7 8 (re_class is_digit)"] re_range_7_8)
  next
    assume l: "length body = 8"
    then have "take 8 s = body" "drop 8 s = Latin1 CHR ''-'' # d # tl" "8 \<le> length s" using s by auto
    then show ?L using tail dig
      unfolding re_match_def rut_pattern_def rut_tail_def [symmetric]
      by (simp add: re_seq_def [of "re_range 7 8 (re_class is_digit)"] re_range_7_8)
  qed
qed


lemma py_split_no_sep: "sep \<notin> set b \<Longrightarrow> py_split sep b = [b]"
  by (induction b) auto

lemma py_split_append:
  "sep \<notin> set a \<Longrightarrow> py_split sep (a @ sep # b) = a # py_split sep b"
  by (induction a) auto

lemma weight_step:
  "(if 2 + int (k mod 6) + 1 > 7 then 2 else 2 + int (k mod 6) + 1) = 2 + int (Suc k mod 6)"
proof -
  have "k mod 6 < 6" by simp
  then show ?thesis by (auto simp: mod_Suc)
qed

lemma sum_list_upt_Suc:
  "sum_list (map f [0..<Suc n]) = (f 0 :: int) + sum_list (map (\<lambda>i. f (Suc i)) [0..<n])"
proof -
  have "[0..<Suc n] = 0 # map Suc [0..<n]"
    by (simp add: upt_conv_Cons map_Suc_upt del: upt_Suc)
  then show ?thesis by (simp add: comp_def del: upt_Suc)
qed

lemma checksum_loop_digits:
  "list_all is_digit ds \<Longrightarrow>
   checksum_loop ds s (2 + int (k mod 6)) =
     Inr (s + sum_list (map (\<lambda>i. (int (py_ord (ds ! i)) - 48) * spec_weight (k + i)) [0..<length ds]))"
proof (induction ds arbitrary: s k)
  case Nil
  then show ?case by simp
next
  case (Cons d ds)
  then have d: "is_digit d" and ds: "list_all is_digit ds" by simp_all
  have "checksum_loop (d # ds) s (2 + int (k mod 6)) =
        checksum_loop ds (s + (int (py_ord d) - 48) * (2 + int (k mod 6))) (2 + int (Suc k mod 6))"
  proof -
    have "checksum_loop (d # ds) s (2 + int (k mod 6)) =
          checksum_loop ds (s + (int (py_ord d) - 48) * (2 + int (k mod 6)))
            (if 2 + int (k mod 6) + 1 > 7 then 2 else 2 + int (k mod 6) + 1)"
      using d by (simp add: py_int_char_def Let_def)
    then show ?thesis by (simp only: weight_step)
  qed
  also have "\<dots> = Inr (s + (int (py_ord d) - 48) * (2 + int (k mod 6)) +
       sum_list (map (\<lambda>i. (int (py_ord (ds ! i)) - 48) * spec_weight (Suc k + i)) [0..<length ds]))"
    using Cons.IH [OF ds] by simp
  finally show ?case
    by (simp add: sum_list_upt_Suc spec_weight_def del: upt_Suc)
qed

lemma checksum_loop_spec:
  assumes "list_all is_digit body"
  shows "checksum_loop (rev body) 0 2 = Inr (spec_checksum body)"
proof -
  have "list_all is_digit (rev body)" using assms by (simp add: list_all_iff)
  from checksum_loop_digits [OF this, of 0 0] show ?thesis
    by (simp add: spec_checksum_def)
qed


lemma clean_eq:
  "py_upper (py_replace_del (Latin1 CHR ''.'') (py_replace_del (Latin1 CHR '' '') raw)) =
   spec_clean raw"
  by (simp add: py_replace_del_def spec_clean_def conj_commute)

lemma spec_format_iff:
  "spec_format s \<longleftrightarrow>
     (\<exists>body d. s = body @ [Latin1 CHR ''-'', d] \<and> (length body = 7 \<or> length body = 8) \<and>
        list_all is_digit body \<and> (is_digit d \<or> d = Latin1 CHR ''K''))"
  (is "?L \<longleftrightarrow> ?R")
proof
  assume L: ?L
  define n where "n = length s - 2"
  from L have len: "length s = n + 2" and n: "n = 7 \<or> n = 8"
    unfolding spec_format_def n_def by auto
  have "drop n s = [s ! n, s ! Suc n]"
    using len by (metis Cons_nth_drop_Suc Suc_eq_plus1 add_2_eq_Suc' drop_all lessI less_add_Suc1 order_refl)
  moreover have "last s = s ! Suc n" using len by (cases s rule: rev_cases) (auto simp: nth_append)
  moreover have "s = take n s @ drop n s" by simp
  ultimately have "s = take n s @ [s ! n, last s]" by simp
  moreover from L have "list_all is_digit (take n s)" "s ! n = Latin1 CHR ''-''"
      "is_digit (last s) \<or> last s = Latin1 CHR ''K''"
    unfolding spec_format_def n_def by auto
  moreover have "length (take n s) = n" using len by simp
  ultimately show ?R using n by (metis)
next
  assume ?R
  then obtain body d where s: "s = body @ [Latin1 CHR ''-'', d]" and
    len: "length body = 7 \<or> length body = 8" and dig: "list_all is_digit body" and
    d: "is_digit d \<or> d = Latin1 CHR ''K''" by blast
  from s have "length s - 2 = length body" by simp
  then show ?L unfolding spec_format_def using s len dig d by (auto simp: nth_append)
qed

lemma str_nat_small: "n < 10 \<Longrightarrow> str_nat n = [digit_char n]"
  by (simp add: str_nat.simps)

lemma py_str_digit: "1 \<le> v \<Longrightarrow> v \<le> 9 \<Longrightarrow> py_str v = [digit_char (nat v)]"
  by (simp add: py_str_def str_nat_small)

lemma dash_not_digit: "\<not> is_digit (Latin1 CHR ''-'')"
  by (simp add: is_digit_def)

lemma digits_no_dash: "list_all is_digit body \<Longrightarrow> Latin1 CHR ''-'' \<notin> set body"
  using dash_not_digit by (auto simp: list_all_iff)

lemma validate_matched:
  assumes s: "s = body @ Latin1 CHR ''-'' # d # rest"
    and len: "length body = 7 \<or> length body = 8"
    and dig: "list_all is_digit body"
    and d: "is_digit d \<or> d = Latin1 CHR ''K''"
    and rst: "rest = [] \<or> rest = [Latin1 CHR 0x0A]"
    and clean: "spec_clean raw = s"
  shows "validate_rut raw = Inr (rest = [] \<and> d = spec_expected body)"
proof -
  have m: "re_match rut_pattern s" unfolding rut_match_iff using s len dig d rst by blast
  have "d \<noteq> Latin1 CHR ''-''" using d dash_not_digit by auto
  then have nd: "Latin1 CHR ''-'' \<notin> set (d # rest)" using rst by auto
  have sp: "py_split (Latin1 CHR ''-'') s = [body, d # rest]"
    unfolding s py_split_append [OF digits_no_dash [OF dig]] py_split_no_sep [OF nd] ..
  have "validate_rut raw = Inr (d # rest = [spec_expected body])"
  proof -
    have r: "0 \<le> spec_checksum body mod 11" "spec_checksum body mod 11 < 11" by simp_all
    show ?thesis
      unfolding validate_rut_def clean_eq clean
      using m checksum_loop_spec [OF dig] sp r
      by (simp add: Let_def spec_expected_def py_str_digit)
  qed
  then show ?thesis by (simp add: conj_commute)
qed

lemma validate_unmatched:
  assumes "\<not> re_match rut_pattern (spec_clean raw)"
  shows "validate_rut raw = Inr False"
  unfolding validate_rut_def clean_eq using assms by simp

lemma validate_rut_spec: "validate_rut raw = Inr (spec_valid raw)"
proof (cases "re_match rut_pattern (spec_clean raw)")
  case False
  have "\<not> spec_format (spec_clean raw)"
  proof
    assume "spec_format (spec_clean raw)"
    then obtain body d where "spec_clean raw = body @ Latin1 CHR ''-'' # d # []"
      "length body = 7 \<or> length body = 8" "list_all is_digit body" "is_digit d \<or> d = Latin1 CHR ''K''"
      unfolding spec_format_iff by auto
    then have "re_match rut_pattern (spec_clean raw)" unfolding rut_match_iff by blast
    with False show False by simp
  qed
  then show ?thesis using validate_unmatched [OF False] by (simp add: spec_valid_def)
next
  case True
  then obtain body d tl where s: "spec_clean raw = body @ Latin1 CHR ''-'' # d # tl" and
    len: "length body = 7 \<or> length body = 8" and dig: "list_all is_digit body" and
    d: "is_digit d \<or> d = Latin1 CHR ''K''" and tl: "tl = [] \<or> tl = [Latin1 CHR 0x0A]"
    unfolding rut_match_iff by blast
  have v: "validate_rut raw = Inr (tl = [] \<and> d = spec_expected body)"
    using validate_matched [OF s len dig d tl refl] .
  show ?thesis
  proof (cases "tl = []")
    case True
    have f: "spec_format (spec_clean raw)" unfolding spec_format_iff using s len dig d True by auto
    have "take (length (spec_clean raw) - 2) (spec_clean raw) = body" "last (spec_clean raw) = d"
      using s True by auto
    then show ?thesis using v f True by (auto simp: spec_valid_def)
  next
    case False
    then have t: "tl = [Latin1 CHR 0x0A]" using tl by simp
    have "\<not> spec_format (spec_clean raw)"
    proof
      assume "spec_format (spec_clean raw)"
      then have "is_digit (last (spec_clean raw)) \<or> last (spec_clean raw) = Latin1 CHR ''K''"
        by (simp add: spec_format_def)
      moreover have "last (spec_clean raw) = Latin1 CHR 0x0A" using s t by simp
      ultimately show False by (simp add: is_digit_def)
    qed
    then show ?thesis using v False by (simp add: spec_valid_def)
  qed
qed

text \<open>
  Claim C5. \<open>_validate_rut(raw)\<close> never raises and returns true exactly when \<open>raw\<close>,
  with spaces and periods removed and upper-cased, consists of seven or eight digits, a dash
  and one digit or \<open>K\<close>, and that last character is the one the weighted checksum
  expects (weights 2..7 cycling from the right; \<open>0\<close> for eleven, \<open>K\<close> for ten, the
  digit otherwise). In particular \<open>18977386-2\<close> is valid.
\<close>

theorem validate_rut_checksum_rule:
  "validate_rut raw = Inr (spec_valid raw) \<and> validate_rut (ustr ''18977386-2'') = Inr True"
proof
  show "validate_rut raw = Inr (spec_valid raw)" by (rule validate_rut_spec)
  show "validate_rut (ustr ''18977386-2'') = Inr True" by code_simp
qed

subsection \<open>Upper-casing\<close>

lemma up_shape:
  "py_upper_char u = [Latin1 CHR ''S'', Latin1 CHR ''S''] \<or> (\<exists>x. py_upper_char u = [x])"
  by (cases u) (simp_all add: py_upper_char_def split: option.splits)

lemma up_space: "Latin1 CHR '' '' \<in> set (py_upper_char u) \<longleftrightarrow> u = Latin1 CHR '' ''"
  by (cases u) (auto simp: py_upper_char_def latin1_smalls_def latin1_capitals_def)

lemma up_period: "Latin1 CHR ''.'' \<in> set (py_upper_char u) \<longleftrightarrow> u = Latin1 CHR ''.''"
  by (cases u) (auto simp: py_upper_char_def latin1_smalls_def latin1_capitals_def)

lemma up_dash: "Latin1 CHR ''-'' \<in> set (py_upper_char u) \<longleftrightarrow> u = Latin1 CHR ''-''"
  by (cases u) (auto simp: py_upper_char_def latin1_smalls_def latin1_capitals_def)

lemma up_of_space: "py_upper_char (Latin1 CHR '' '') = [Latin1 CHR '' '']"
  by code_simp

lemma up_of_period: "py_upper_char (Latin1 CHR ''.'') = [Latin1 CHR ''.'']"
  by code_simp

lemma up_of_dash: "py_upper_char (Latin1 CHR ''-'') = [Latin1 CHR ''-'']"
  by code_simp

lemma up_fixed: "x \<in> set (py_upper_char u) \<Longrightarrow> py_upper_char x = [x]"
  by (cases u) (auto simp: py_upper_char_def latin1_smalls_def latin1_capitals_def
                     split: if_splits)

lemma py_upper_Nil: "py_upper [] = []"
  by (simp add: py_upper_def)

lemma py_upper_Cons: "py_upper (u # s) = py_upper_char u @ py_upper s"
  by (simp add: py_upper_def)

lemma py_upper_append: "py_upper (a @ b) = py_upper a @ py_upper b"
  by (simp add: py_upper_def)

lemma py_upper_fixed: "(\<And>x. x \<in> set t \<Longrightarrow> py_upper_char x = [x]) \<Longrightarrow> py_upper t = t"
  by (induction t) (simp_all add: py_upper_Nil py_upper_Cons)

lemma py_upper_set_fixed: "x \<in> set (py_upper s) \<Longrightarrow> py_upper_char x = [x]"
  using up_fixed by (auto simp: py_upper_def)

lemma py_upper_idem: "py_upper (py_upper s) = py_upper s"
  using py_upper_set_fixed by (rule py_upper_fixed)

lemma py_upper_has:
  "Latin1 CHR '' '' \<in> set (py_upper s) \<longleftrightarrow> Latin1 CHR '' '' \<in> set s"
  "Latin1 CHR ''.'' \<in> set (py_upper s) \<longleftrightarrow> Latin1 CHR ''.'' \<in> set s"
  "Latin1 CHR ''-'' \<in> set (py_upper s) \<longleftrightarrow> Latin1 CHR ''-'' \<in> set s"
  by (auto simp: py_upper_def up_space up_period up_dash)

subsection \<open>Normalising and mutating identifiers\<close>

lemma spec_clean_append: "spec_clean (a @ b) = spec_clean a @ spec_clean b"
  by (simp add: spec_clean_def py_upper_append)

lemma spec_clean_no_separator:
  "Latin1 CHR '' '' \<notin> set (spec_clean raw) \<and> Latin1 CHR ''.'' \<notin> set (spec_clean raw)"
  by (simp add: spec_clean_def py_upper_has)

lemma spec_clean_idem: "spec_clean (spec_clean raw) = spec_clean raw"
proof -
  have "filter (\<lambda>c. c \<noteq> Latin1 CHR '' '' \<and> c \<noteq> Latin1 CHR ''.'') (spec_clean raw) = spec_clean raw"
    using spec_clean_no_separator [of raw] by (auto simp: filter_id_conv)
  then have "spec_clean (spec_clean raw) = py_upper (spec_clean raw)"
    by (simp add: spec_clean_def [of "spec_clean raw"])
  then show ?thesis by (simp add: spec_clean_def py_upper_idem)
qed

lemma spec_clean_separators:
  "set post \<subseteq> {Latin1 CHR '' '', Latin1 CHR ''.''} \<Longrightarrow> spec_clean post = []"
  by (induction post) (auto simp: spec_clean_def py_upper_Nil)

lemma format_rut_cases:
  "format_rut raw =
     (if Latin1 CHR ''-'' \<notin> set (spec_clean raw) \<and> 8 \<le> length (spec_clean raw)
      then butlast (spec_clean raw) @ ustr ''-'' @ [last (spec_clean raw)]
      else spec_clean raw)"
  by (simp add: format_rut_def clean_eq Let_def)

lemma spec_format_has_dash: "spec_format s \<Longrightarrow> Latin1 CHR ''-'' \<in> set s"
  unfolding spec_format_iff by auto

lemma format_rut_valid:
  assumes "spec_valid raw"
  shows "format_rut raw = spec_clean raw"
proof -
  from assms have "spec_format (spec_clean raw)" by (simp add: spec_valid_def Let_def)
  then have "Latin1 CHR ''-'' \<in> set (spec_clean raw)" by (rule spec_format_has_dash)
  then show ?thesis by (simp add: format_rut_cases)
qed

lemma spec_valid_clean: "spec_valid (spec_clean raw) = spec_valid raw"
  by (simp add: spec_valid_def spec_clean_idem)

lemma normalize_keeps_valid:
  assumes "validate_rut raw = Inr True"
  shows "validate_rut (format_rut raw) = Inr True"
proof -
  from assms have v: "spec_valid raw" by (simp add: validate_rut_spec)
  then show ?thesis by (simp add: validate_rut_spec format_rut_valid spec_valid_clean)
qed

lemma spec_clean_check_char:
  assumes "set post \<subseteq> {Latin1 CHR '' '', Latin1 CHR ''.''}"
  shows "spec_clean (pre @ c # post) =
         spec_clean pre @
           (if c = Latin1 CHR '' '' \<or> c = Latin1 CHR ''.'' then [] else py_upper_char c)"
proof -
  have "spec_clean (pre @ c # post) = spec_clean pre @ spec_clean [c] @ spec_clean post"
    using spec_clean_append [of pre "[c] @ post"] spec_clean_append [of "[c]" post] by simp
  then show ?thesis using spec_clean_separators [OF assms]
    by (simp add: spec_clean_def py_upper_Nil py_upper_Cons)
qed

lemma take_snoc_body: "take (length (a @ [x]) - 2) (a @ [x]) = butlast a"
  by (cases a rule: rev_cases) simp_all

lemma spec_valid_snoc:
  assumes "spec_clean raw = a @ [x]"
  shows "spec_valid raw \<longleftrightarrow> spec_format (a @ [x]) \<and> x = spec_expected (butlast a)"
  unfolding spec_valid_def Let_def assms take_snoc_body by simp

lemma spec_format_snoc_dash:
  assumes "spec_format (a @ [x])"
  shows "a \<noteq> [] \<and> last a = Latin1 CHR ''-''"
proof -
  from assms obtain body d where "a @ [x] = body @ [Latin1 CHR ''-'', d]"
    unfolding spec_format_iff by blast
  then have "a @ [x] = (body @ [Latin1 CHR ''-'']) @ [d]" by simp
  then have "a = body @ [Latin1 CHR ''-'']" by (simp only: append1_eq_conv)
  then show ?thesis by simp
qed

lemma spec_format_last:
  assumes "spec_format a"
  shows "last a \<noteq> Latin1 CHR ''-''"
proof -
  from assms have "is_digit (last a) \<or> last a = Latin1 CHR ''K''" by (simp add: spec_format_def)
  then show ?thesis using dash_not_digit by auto
qed

lemma spec_format_not_SS: "\<not> spec_format (a @ [Latin1 CHR ''S'', Latin1 CHR ''S''])"
  by (simp add: spec_format_def is_digit_def)

lemma mutation_rejected:
  assumes valid: "validate_rut (pre @ d # post) = Inr True"
    and post: "set post \<subseteq> {Latin1 CHR '' '', Latin1 CHR ''.''}"
    and d: "d \<noteq> Latin1 CHR '' ''" "d \<noteq> Latin1 CHR ''.''"
    and c: "py_upper_char c \<noteq> py_upper_char d"
  shows "validate_rut (pre @ c # post) = Inr False"
proof -
  let ?a = "spec_clean pre"
  have cd: "spec_clean (pre @ d # post) = ?a @ py_upper_char d"
    using spec_clean_check_char [OF post, of pre d] d by simp
  from valid have vd: "spec_valid (pre @ d # post)" by (simp add: validate_rut_spec)
  then have "spec_format (?a @ py_upper_char d)" by (simp add: spec_valid_def Let_def cd)
  then obtain x where x: "py_upper_char d = [x]"
    using up_shape [of d] spec_format_not_SS [of ?a] by auto
  have cdx: "spec_clean (pre @ d # post) = ?a @ [x]" using cd x by simp
  from vd have fe: "spec_format (?a @ [x]) \<and> x = spec_expected (butlast ?a)"
    unfolding spec_valid_snoc [OF cdx] .
  note f = fe [THEN conjunct1] and e = fe [THEN conjunct2]
  have "\<not> spec_valid (pre @ c # post)"
  proof (cases "c = Latin1 CHR '' '' \<or> c = Latin1 CHR ''.''")
    case True
    then have "spec_clean (pre @ c # post) = ?a"
      using spec_clean_check_char [OF post, of pre c] by simp
    moreover have "\<not> spec_format ?a"
      using spec_format_snoc_dash [OF f] spec_format_last by blast
    ultimately show ?thesis by (simp add: spec_valid_def Let_def)
  next
    case False
    then have cc: "spec_clean (pre @ c # post) = ?a @ py_upper_char c"
      using spec_clean_check_char [OF post, of pre c] by simp
    from up_shape [of c] show ?thesis
    proof
      assume "py_upper_char c = [Latin1 CHR ''S'', Latin1 CHR ''S'']"
      then show ?thesis using cc spec_format_not_SS [of ?a] by (simp add: spec_valid_def Let_def)
    next
      assume "\<exists>y. py_upper_char c = [y]"
      then obtain y where y: "py_upper_char c = [y]" ..
      then have ccy: "spec_clean (pre @ c # post) = ?a @ [y]" using cc by simp
      have "y \<noteq> x" using c x y by simp
      then show ?thesis unfolding spec_valid_snoc [OF ccy] using e by simp
    qed
  qed
  then show ?thesis by (simp add: validate_rut_spec)
qed

text \<open>
  Claim C6 (amended). A valid identifier stays valid after \<open>_format_rut\<close>. Writing a
  valid identifier as \<open>pre @ d # post\<close>, where \<open>post\<close> holds only spaces and periods
  and \<open>d\<close>, its check character, is neither, replacing \<open>d\<close> by any character whose
  upper-case form differs from that of \<open>d\<close> makes \<open>_validate_rut\<close> return false.
\<close>

theorem normalize_validate_and_check_mutation:
  "(validate_rut raw = Inr True \<longrightarrow> validate_rut (format_rut raw) = Inr True) \<and>
   (validate_rut (pre @ d # post) = Inr True \<and>
    set post \<subseteq> {Latin1 CHR '' '', Latin1 CHR ''.''} \<and>
    d \<noteq> Latin1 CHR '' '' \<and> d \<noteq> Latin1 CHR ''.'' \<and> py_upper_char c \<noteq> py_upper_char d \<longrightarrow>
    validate_rut (pre @ c # post) = Inr False)"
  using normalize_keeps_valid mutation_rejected by blast

theorem normalize_validate_and_check_mutation_witness:
  "validate_rut (ustr ''18.977.386-2 '') = Inr True \<and>
   validate_rut (format_rut (ustr ''18.977.386-2 '')) = Inr True \<and>
   validate_rut (ustr ''18.977.386-'' @ Latin1 CHR ''2'' # ustr '' '') = Inr True \<and>
   set (ustr '' '') \<subseteq> {Latin1 CHR '' '', Latin1 CHR ''.''} \<and>
   py_upper_char (Latin1 CHR ''7'') \<noteq> py_upper_char (Latin1 CHR ''2'') \<and>
   validate_rut (ustr ''18.977.386-'' @ Latin1 CHR ''7'' # ustr '' '') = Inr False"
proof -
  have h1: "validate_rut (ustr ''18.977.386-2 '') = Inr True" by code_simp
  have h2: "validate_rut (ustr ''18.977.386-'' @ Latin1 CHR ''2'' # ustr '' '') = Inr True"
    by code_simp
  have h3: "set (ustr '' '') \<subseteq> {Latin1 CHR '' '', Latin1 CHR ''.''}" by simp
  have h4: "py_upper_char (Latin1 CHR ''7'') \<noteq> py_upper_char (Latin1 CHR ''2'')" by code_simp
  show ?thesis
    using normalize_validate_and_check_mutation
            [of "ustr ''18.977.386-2 ''" "ustr ''18.977.386-''" "Latin1 CHR ''2''" "ustr '' ''"
                "Latin1 CHR ''7''"]
          h1 h2 h3 h4
    by simp
qed

text \<open>
  The check character \<open>K\<close> of the valid identifier \<open>1000005-K\<close> replaced by the
  different character \<open>k\<close>: the validator upper-cases its input and still accepts it.
\<close>

theorem check_mutation_counterexample:
  "validate_rut (ustr ''1000005-K'') = Inr True \<and> Latin1 CHR ''k'' \<noteq> Latin1 CHR ''K'' \<and>
   validate_rut (ustr ''1000005-k'') = Inr True"
  by code_simp

subsection \<open>The normal form\<close>

lemma spec_clean_fixed: "py_upper (spec_clean raw) = spec_clean raw"
  by (simp add: spec_clean_def py_upper_idem)

lemma spec_clean_dash:
  "Latin1 CHR ''-'' \<in> set (spec_clean raw) \<longleftrightarrow> Latin1 CHR ''-'' \<in> set raw"
  by (simp add: spec_clean_def py_upper_has)

lemma up_without_dash:
  "filter (\<lambda>c. c \<noteq> Latin1 CHR ''-'') (py_upper_char u) =
     (if u = Latin1 CHR ''-'' then [] else py_upper_char u)"
proof (cases "u = Latin1 CHR ''-''")
  case True
  then show ?thesis by (simp add: up_of_dash)
next
  case False
  then have "Latin1 CHR ''-'' \<notin> set (py_upper_char u)" by (simp add: up_dash)
  then show ?thesis using False by (auto simp: filter_id_conv)
qed

lemma spec_clean_without_dash:
  "filter (\<lambda>c. c \<noteq> Latin1 CHR ''-'') (spec_clean raw) =
   py_upper (filter (\<lambda>c. c \<noteq> Latin1 CHR '' '' \<and> c \<noteq> Latin1 CHR ''.'' \<and> c \<noteq> Latin1 CHR ''-'') raw)"
  by (induction raw) (simp_all add: spec_clean_def py_upper_Nil py_upper_Cons up_without_dash)

lemma format_rut_inserted:
  assumes "Latin1 CHR ''-'' \<notin> set (spec_clean raw)" "8 \<le> length (spec_clean raw)"
  shows "format_rut raw = butlast (spec_clean raw) @ ustr ''-'' @ [last (spec_clean raw)]"
    and "butlast (spec_clean raw) @ [last (spec_clean raw)] = spec_clean raw"
proof -
  show "format_rut raw = butlast (spec_clean raw) @ ustr ''-'' @ [last (spec_clean raw)]"
    using assms by (simp add: format_rut_cases)
  have "spec_clean raw \<noteq> []" using assms(2) by auto
  then show "butlast (spec_clean raw) @ [last (spec_clean raw)] = spec_clean raw" by simp
qed

lemma format_rut_kept:
  assumes "Latin1 CHR ''-'' \<in> set (spec_clean raw) \<or> length (spec_clean raw) < 8"
  shows "format_rut raw = spec_clean raw"
  using assms by (auto simp: format_rut_cases)

lemma format_rut_set: "set (format_rut raw) \<subseteq> insert (Latin1 CHR ''-'') (set (spec_clean raw))"
proof (cases "Latin1 CHR ''-'' \<notin> set (spec_clean raw) \<and> 8 \<le> length (spec_clean raw)")
  case True
  then have ne: "spec_clean raw \<noteq> []" by auto
  have "set (butlast (spec_clean raw)) \<subseteq> set (spec_clean raw)"
    by (meson in_set_butlastD subsetI)
  moreover have "last (spec_clean raw) \<in> set (spec_clean raw)" using ne by simp
  ultimately show ?thesis using True by (auto simp: format_rut_cases)
next
  case False
  then show ?thesis by (auto simp: format_rut_cases)
qed

lemma format_rut_fixed: "py_upper (format_rut raw) = format_rut raw"
proof (rule py_upper_fixed)
  fix x assume "x \<in> set (format_rut raw)"
  then have "x = Latin1 CHR ''-'' \<or> x \<in> set (spec_clean raw)" using format_rut_set [of raw] by auto
  then show "py_upper_char x = [x]"
  proof
    assume "x = Latin1 CHR ''-''" then show ?thesis by (simp add: up_of_dash)
  next
    assume "x \<in> set (spec_clean raw)"
    then show ?thesis unfolding spec_clean_def by (rule py_upper_set_fixed)
  qed
qed

lemma format_rut_without_dash:
  "filter (\<lambda>c. c \<noteq> Latin1 CHR ''-'') (format_rut raw) =
   filter (\<lambda>c. c \<noteq> Latin1 CHR ''-'') (spec_clean raw)"
proof (cases "Latin1 CHR ''-'' \<notin> set (spec_clean raw) \<and> 8 \<le> length (spec_clean raw)")
  case True
  then have ne: "spec_clean raw \<noteq> []" by auto
  have "filter (\<lambda>c. c \<noteq> Latin1 CHR ''-'')
          (butlast (spec_clean raw) @ ustr ''-'' @ [last (spec_clean raw)]) =
        filter (\<lambda>c. c \<noteq> Latin1 CHR ''-'') (butlast (spec_clean raw) @ [last (spec_clean raw)])"
    by simp
  then show ?thesis using True ne by (simp add: format_rut_cases)
next
  case False
  then show ?thesis by (auto simp: format_rut_cases)
qed

text \<open>
  Claim C7 (amended). \<open>_format_rut\<close> removes every space and period and upper-cases the
  rest, keeping the other characters in their order: its result holds no space and no
  period, is left unchanged by \<open>upper\<close>, and without its dashes it is the upper-cased
  input without spaces, periods and dashes. When the input has no dash and its cleaned,
  upper-cased text (in which a sharp s has become \<open>SS\<close>) has at least eight characters,
  a dash is inserted before the final character of that text; otherwise that text is
  returned as it is.
\<close>

theorem format_rut_normalizes:
  "Latin1 CHR '' '' \<notin> set (format_rut raw) \<and> Latin1 CHR ''.'' \<notin> set (format_rut raw) \<and>
   py_upper (format_rut raw) = format_rut raw \<and>
   filter (\<lambda>c. c \<noteq> Latin1 CHR ''-'') (format_rut raw) =
     py_upper (filter (\<lambda>c. c \<noteq> Latin1 CHR '' '' \<and> c \<noteq> Latin1 CHR ''.'' \<and>
                           c \<noteq> Latin1 CHR ''-'') raw) \<and>
   (Latin1 CHR ''-'' \<notin> set raw \<and>
    8 \<le> length (py_upper (filter (\<lambda>c. c \<noteq> Latin1 CHR '' '' \<and> c \<noteq> Latin1 CHR ''.'') raw)) \<longrightarrow>
      (\<exists>body d. format_rut raw = body @ ustr ''-'' @ [d] \<and>
                body @ [d] =
                  py_upper (filter (\<lambda>c. c \<noteq> Latin1 CHR '' '' \<and> c \<noteq> Latin1 CHR ''.'') raw))) \<and>
   (Latin1 CHR ''-'' \<in> set raw \<or>
    length (py_upper (filter (\<lambda>c. c \<noteq> Latin1 CHR '' '' \<and> c \<noteq> Latin1 CHR ''.'') raw)) < 8 \<longrightarrow>
      format_rut raw =
        py_upper (filter (\<lambda>c. c \<noteq> Latin1 CHR '' '' \<and> c \<noteq> Latin1 CHR ''.'') raw))"
proof -
  have s: "py_upper (filter (\<lambda>c. c \<noteq> Latin1 CHR '' '' \<and> c \<noteq> Latin1 CHR ''.'') raw) =
           spec_clean raw"
    by (simp add: spec_clean_def)
  have sep: "Latin1 CHR '' '' \<notin> set (format_rut raw) \<and> Latin1 CHR ''.'' \<notin> set (format_rut raw)"
    using format_rut_set [of raw] spec_clean_no_separator [of raw] by auto
  have flt: "filter (\<lambda>c. c \<noteq> Latin1 CHR ''-'') (format_rut raw) =
     py_upper (filter (\<lambda>c. c \<noteq> Latin1 CHR '' '' \<and> c \<noteq> Latin1 CHR ''.'' \<and>
                           c \<noteq> Latin1 CHR ''-'') raw)"
    by (simp add: format_rut_without_dash spec_clean_without_dash)
  have ins: "Latin1 CHR ''-'' \<notin> set raw \<and> 8 \<le> length (spec_clean raw) \<longrightarrow>
      (\<exists>body d. format_rut raw = body @ ustr ''-'' @ [d] \<and> body @ [d] = spec_clean raw)"
    using format_rut_inserted [of raw] by (auto simp: spec_clean_dash)
  have kept: "Latin1 CHR ''-'' \<in> set raw \<or> length (spec_clean raw) < 8 \<longrightarrow>
      format_rut raw = spec_clean raw"
    using format_rut_kept [of raw] by (auto simp: spec_clean_dash)
  show ?thesis unfolding s using sep format_rut_fixed [of raw] flt ins kept by blast
qed

theorem format_rut_normalizes_witness:
  "Latin1 CHR ''-'' \<notin> set (ustr ''18.977.386 k'') \<and>
   8 \<le> length (py_upper (filter (\<lambda>c. c \<noteq> Latin1 CHR '' '' \<and> c \<noteq> Latin1 CHR ''.'')
                          (ustr ''18.977.386 k''))) \<and>
   (\<exists>body d. format_rut (ustr ''18.977.386 k'') = body @ ustr ''-'' @ [d] \<and>
       body @ [d] = py_upper (filter (\<lambda>c. c \<noteq> Latin1 CHR '' '' \<and> c \<noteq> Latin1 CHR ''.'')
                                (ustr ''18.977.386 k''))) \<and>
   Latin1 CHR ''-'' \<in> set (ustr ''18.977.386-k'') \<and>
   format_rut (ustr ''18.977.386-k'') =
     py_upper (filter (\<lambda>c. c \<noteq> Latin1 CHR '' '' \<and> c \<noteq> Latin1 CHR ''.'') (ustr ''18.977.386-k''))"
proof -
  have h1: "Latin1 CHR ''-'' \<notin> set (ustr ''18.977.386 k'')" by simp
  have h2: "8 \<le> length (py_upper (filter (\<lambda>c. c \<noteq> Latin1 CHR '' '' \<and> c \<noteq> Latin1 CHR ''.'')
                          (ustr ''18.977.386 k'')))" by code_simp
  have h3: "Latin1 CHR ''-'' \<in> set (ustr ''18.977.386-k'')" by simp
  show ?thesis
    using format_rut_normalizes [of "ustr ''18.977.386 k''"]
      format_rut_normalizes [of "ustr ''18.977.386-k''"]
      h1 h2 h3 by blast
qed

text \<open>
  A seven-character text without a dash gets no dash, and a tab is white space that
  \<open>_format_rut\<close> keeps. An accented letter is upper-cased and a sharp s becomes two
  characters, which are counted before the dash is placed.
\<close>

theorem format_rut_counterexample:
  "Latin1 CHR ''-'' \<notin> set (format_rut (ustr ''1234567'')) \<and>
   format_rut (Latin1 CHR 0x09 # ustr ''123456789'') = Latin1 CHR 0x09 # ustr ''12345678-9'' \<and>
   format_rut (Latin1 CHR 0xDF # ustr ''123456'') = ustr ''SS12345-6'' \<and>
   format_rut (Latin1 CHR 0xE9 # ustr ''12345678'') = Latin1 CHR 0xC9 # ustr ''1234567-8''"
  by code_simp


section \<open>Properties of the interstitial guard\<close>

lemma scan_elements_stays:
  "fst (fst (scan_elements b ms True w)) = True"
  by (induction ms arbitrary: w) (auto split: sum.splits bool.splits prod.splits)

lemma scan_elements_nothing:
  "first_visible b w ms = Inr None \<Longrightarrow> scan_elements b ms found w = ((found, None), w)"
  by (induction ms) (auto split: sum.splits bool.splits if_splits)

lemma scan_elements_fault:
  "first_visible b w ms = Inl e \<Longrightarrow> scan_elements b ms found w = ((found, Some e), w)"
  by (induction ms) (auto split: sum.splits bool.splits if_splits)

lemma scan_elements_found:
  "first_visible b w ms = Inr (Some m) \<Longrightarrow> fst (fst (scan_elements b ms found w)) = True"
proof (induction ms)
  case Nil
  then show ?case by simp
next
  case (Cons a ms)
  show ?case
  proof (cases "is_visible b w a")
    case (Inl e)
    then show ?thesis using Cons.prems by simp
  next
    case (Inr v)
    show ?thesis
    proof (cases v)
      case True
      then show ?thesis using Inr scan_elements_stays [of b ms]
        by (auto split: sum.splits bool.splits prod.splits)
    next
      case False
      then show ?thesis using Inr Cons by simp
    qed
  qed
qed

lemma scan_selectors_stays:
  "fst (fst (scan_selectors b sels True w)) = True"
proof (induction sels arbitrary: w)
  case Nil
  then show ?case by simp
next
  case (Cons sel sels)
  show ?case
  proof (cases "query_selector_all b w sel")
    case (Inl e)
    then show ?thesis using Cons by (cases e) simp_all
  next
    case (Inr ms)
    obtain f x w1 where r: "scan_elements b ms True w = ((f, x), w1)"
      by (metis prod.exhaust)
    with scan_elements_stays [of b ms w] have f: "f = True" by simp
    show ?thesis
    proof (cases x)
      case None
      then show ?thesis using Inr r f Cons by simp
    next
      case (Some e)
      then show ?thesis using Inr r f Cons by (cases e) simp_all
    qed
  qed
qed


lemma scan_selectors_sighting:
  "(first_overlay b w sels = Nothing_visible \<longrightarrow>
      scan_selectors b sels found w = ((found, None), w)) \<and>
   (first_overlay b w sels = Interrupted \<longrightarrow>
      scan_selectors b sels found w = ((found, Some KeyboardInterrupt), w)) \<and>
   (first_overlay b w sels = Overlay m \<longrightarrow>
      fst (fst (scan_selectors b sels found w)) = True)"
proof (induction sels)
  case Nil
  then show ?case by simp
next
  case (Cons sel sels)
  show ?case
  proof (cases "query_selector_all b w sel")
    case (Inl e)
    then show ?thesis using Cons by (cases e) simp_all
  next
    case q: (Inr ms)
    show ?thesis
    proof (cases "first_visible b w ms")
      case (Inl e)
      from scan_elements_fault [OF this, of found] show ?thesis using q Inl Cons
        by (cases e) simp_all
    next
      case (Inr r)
      show ?thesis
      proof (cases r)
        case None
        from scan_elements_nothing [of b w ms found] Inr None show ?thesis using q Cons by simp
      next
        case (Some a)
        obtain x w1 where r: "scan_elements b ms found w = ((True, x), w1)"
          using scan_elements_found [of b w ms a found] Inr Some
          by (metis fst_conv prod.exhaust)
        show ?thesis
        proof (cases x)
          case None
          then show ?thesis using q r Inr Some scan_selectors_stays [of b sels w1] by simp
        next
          case sf: (Some e)
          then show ?thesis using q r Inr Some scan_selectors_stays [of b sels w1]
            by (cases e) simp_all
        qed
      qed
    qed
  qed
qed

lemma detect_never_raises:
  "fst (detect_and_close_modals b w) \<noteq> Inl (Exception msg)"
  by (simp add: detect_and_close_modals_def split: prod.splits option.splits fault.splits)

lemma detect_nothing:
  assumes "sighting b w = Nothing_visible"
  shows "detect_and_close_modals b w = (Inr False, w)"
  using scan_selectors_sighting [of b w modal_selectors False] assms
  by (simp add: detect_and_close_modals_def sighting_def)

lemma detect_interrupted:
  assumes "sighting b w = Interrupted"
  shows "detect_and_close_modals b w = (Inl KeyboardInterrupt, w)"
  using scan_selectors_sighting [of b w modal_selectors False] assms
  by (simp add: detect_and_close_modals_def sighting_def)


subsection \<open>Runs that are not interrupted\<close>

lemma close_by_button_returns: "\<exists>r w1. close_by_button b m sels w = (Inr r, w1)"
  by (induction sels arbitrary: w) (auto split: sum.splits option.splits prod.splits)

lemma close_modal_uninterrupted:
  assumes "uninterrupted b"
  shows "fst (close_modal b m w) \<noteq> Inl KeyboardInterrupt"
proof -
  from assms have a: "\<And>a w. fst (act b a w) \<noteq> Inl KeyboardInterrupt"
    and s: "\<And>w m. is_still_visible b w m \<noteq> Inl KeyboardInterrupt"
    by (simp_all add: uninterrupted_def)
  have act: "\<And>a w w1. act b a w \<noteq> (Inl KeyboardInterrupt, w1)"
    using a by (metis fst_conv)
  obtain r w1 where c: "close_by_button b m close_selectors w = (Inr r, w1)"
    using close_by_button_returns [of b m close_selectors w] by blast
  show ?thesis
    using c act s
    by (auto simp: close_modal_def p_except_Exception_def p_bind_def p_return_def p_probe_def
             split: prod.splits sum.splits fault.splits if_splits)
qed

lemma scan_elements_uninterrupted:
  assumes "uninterrupted b"
  shows "snd (fst (scan_elements b ms found w)) \<noteq> Some KeyboardInterrupt"
proof (induction ms arbitrary: found w)
  case Nil
  then show ?case by simp
next
  case (Cons m ms)
  from assms have v: "is_visible b w m \<noteq> Inl KeyboardInterrupt"
    and a: "\<And>a w. fst (act b a w) \<noteq> Inl KeyboardInterrupt"
    by (simp_all add: uninterrupted_def)
  have act: "\<And>a w w1. act b a w \<noteq> (Inl KeyboardInterrupt, w1)"
    using a by (metis fst_conv)
  have cm: "\<And>w1. close_modal b m w \<noteq> (Inl KeyboardInterrupt, w1)"
    using close_modal_uninterrupted [OF assms, of m w] by (metis fst_conv)
  show ?case using v act cm Cons
    by (auto split: sum.splits bool.splits prod.splits)
qed

lemma scan_selectors_uninterrupted:
  assumes "uninterrupted b"
  shows "snd (fst (scan_selectors b sels found w)) = None"
proof (induction sels arbitrary: found w)
  case Nil
  then show ?case by simp
next
  case (Cons sel sels)
  from assms have q: "query_selector_all b w sel \<noteq> Inl KeyboardInterrupt"
    by (simp add: uninterrupted_def)
  show ?case
  proof (cases "query_selector_all b w sel")
    case (Inl e)
    then show ?thesis using q Cons by (cases e) simp_all
  next
    case (Inr ms)
    obtain f x w1 where r: "scan_elements b ms found w = ((f, x), w1)"
      by (metis prod.exhaust)
    have nk: "x \<noteq> Some KeyboardInterrupt"
      using scan_elements_uninterrupted [OF assms, of ms found w] r by simp
    show ?thesis
    proof (cases x)
      case None
      then show ?thesis using Inr r Cons by simp
    next
      case (Some e)
      then show ?thesis using Inr r Cons nk by (cases e) simp_all
    qed
  qed
qed

lemma detect_found_uninterrupted:
  assumes "sighting b w = Overlay m" "uninterrupted b"
  shows "fst (detect_and_close_modals b w) = Inr True"
proof -
  obtain f x w1 where r: "scan_selectors b modal_selectors False w = ((f, x), w1)"
    by (metis prod.exhaust)
  from scan_selectors_sighting [of b w modal_selectors False m] assms r have f: "f = True"
    by (simp add: sighting_def)
  from scan_selectors_uninterrupted [OF assms(2), of modal_selectors False w] r
  have "x = None" by simp
  then show ?thesis using r f by (simp add: detect_and_close_modals_def)
qed

subsection \<open>Pages whose probes all answer\<close>






text \<open>The equations that run a program on the test double.\<close>

lemmas run_eval =
  detect_and_close_modals_def close_modal_def close_selectors_def modal_selectors_def
  p_bind_def p_return_def p_probe_def p_get_def p_except_all_def p_except_Exception_def
  p_except_both_def sim_env_def sim_act_def sim_page_def
  overlay_visible_def visible_in_def probes_answer_def probe_answers_def
  handle_error_automatically_def mk_outcome_def error_outcome_def
  check_availability_def before_click_loop_def check_error_messages_def error_selectors_def
  error_patterns_def classify_content_def no_availability_keywords_def
  availability_keywords_def next_step_selectors_def continue_availability_check_def
  click_round_def locate_button_def guarded_click_def scan_after_click_def
  find_button_def primary_button_selector_def alternative_selectors_def
  availability_error_def handle_estatus_page_def py_strip_def py_isspace_def Let_def

lemmas weak_congs =
  sum.case_cong_weak prod.case_cong_weak option.case_cong_weak fault.case_cong_weak
  list.case_cong_weak bool.case_cong_weak action.case_cong_weak round.case_cong_weak
  estatus.case_cong_weak

lemma sim_overlay_detected:
  "detect_and_close_modals sim_env ((sim_page u c)\<lparr>s_overlays := [7]\<rparr>) =
     (Inr True, sim_page u c)"
  by (simp add: run_eval cong: weak_congs)

lemma sim_overlay_sighting:
  "sighting sim_env ((sim_page u c)\<lparr>s_overlays := [7]\<rparr>) = Overlay 7"
  by (simp add: sighting_def modal_selectors_def sim_env_def sim_page_def)

lemma sim_clear_sighting: "sighting sim_env (sim_page u c) = Nothing_visible"
  by (simp add: sighting_def modal_selectors_def sim_env_def sim_page_def)

lemma sim_interrupted_sighting: "sighting sim_interrupted (sim_page u c) = Interrupted"
  by (simp add: sighting_def modal_selectors_def sim_interrupted_def sim_env_def)



lemma sim_uninterrupted: "uninterrupted sim_env"
  by (simp add: uninterrupted_def sim_env_def sim_act_def split: action.splits option.splits)





text \<open>
  Claim C3 (amended). \<open>handle_error_automatically\<close> raises no \<open>Exception\<close>. It first
  runs the guard, and an interrupt raised there goes to the caller without a decision.
  When the guard reports an overlay the decision is \<open>retry_without_restart\<close> for every
  result. When it reports none, \<open>no_availability_error\<close> and
  \<open>no_availability_content\<close> yield \<open>continue\<close> and every other status, among them
  \<open>timeout_error\<close>, \<open>estatus_error\<close>, \<open>no_availability\<close> and the unknown and
  uncertain kinds, yields \<open>retry_without_restart\<close>. The page is left as the guard
  leaves it.
\<close>

theorem handle_error_automatically_policy:
  "fst (handle_error_automatically b info w) \<noteq> Inl (Exception msg) \<and>
   (detect_and_close_modals b w = (Inl e, w1) \<longrightarrow>
      e = KeyboardInterrupt \<and> handle_error_automatically b info w = (Inl KeyboardInterrupt, w1)) \<and>
   (detect_and_close_modals b w = (Inr found, w1) \<longrightarrow>
      handle_error_automatically b info w =
        (Inr (if found \<or> status info \<notin> set [''no_availability_error'', ''no_availability_content'']
              then ''retry_without_restart'' else ''continue''), w1)) \<and>
   (sighting b w = Nothing_visible \<longrightarrow>
      handle_error_automatically b info w =
        (Inr (if status info \<in> set [''no_availability_error'', ''no_availability_content'']
              then ''continue'' else ''retry_without_restart''), w)) \<and>
   (sighting b w = Interrupted \<longrightarrow>
      handle_error_automatically b info w = (Inl KeyboardInterrupt, w)) \<and>
   (sighting b w = Overlay m \<and> uninterrupted b \<longrightarrow>
      fst (handle_error_automatically b info w) = Inr ''retry_without_restart'')"
proof (intro conjI impI)
  obtain r w' where d: "detect_and_close_modals b w = (r, w')" by (metis prod.exhaust)
  have r: "r \<noteq> Inl (Exception msg)" using detect_never_raises [of b w msg] d by simp
  show "fst (handle_error_automatically b info w) \<noteq> Inl (Exception msg)"
    using r d
    by (cases r) (auto simp: handle_error_automatically_def p_bind_def p_return_def Let_def)
  show "e = KeyboardInterrupt" if "detect_and_close_modals b w = (Inl e, w1)"
    using detect_never_raises [of b w] that by (cases e) auto
  show "handle_error_automatically b info w = (Inl KeyboardInterrupt, w1)"
    if "detect_and_close_modals b w = (Inl e, w1)"
    using detect_never_raises [of b w] that
    by (cases e) (auto simp: handle_error_automatically_def p_bind_def)
  show "handle_error_automatically b info w =
        (Inr (if found \<or> status info \<notin> set [''no_availability_error'', ''no_availability_content'']
              then ''retry_without_restart'' else ''continue''), w1)"
    if "detect_and_close_modals b w = (Inr found, w1)"
    using that by (auto simp: handle_error_automatically_def p_bind_def p_return_def Let_def)
  show "handle_error_automatically b info w =
        (Inr (if status info \<in> set [''no_availability_error'', ''no_availability_content'']
              then ''continue'' else ''retry_without_restart''), w)"
    if "sighting b w = Nothing_visible"
    using detect_nothing [OF that]
    by (auto simp: handle_error_automatically_def p_bind_def p_return_def Let_def)
  show "handle_error_automatically b info w = (Inl KeyboardInterrupt, w)"
    if "sighting b w = Interrupted"
    using detect_interrupted [OF that] by (simp add: handle_error_automatically_def p_bind_def)
  show "fst (handle_error_automatically b info w) = Inr ''retry_without_restart''"
    if "sighting b w = Overlay m \<and> uninterrupted b"
  proof -
    from that have "fst (detect_and_close_modals b w) = Inr True"
      using detect_found_uninterrupted [of b w m] by simp
    then have "detect_and_close_modals b w = (Inr True, w')" using d by simp
    then show ?thesis by (simp add: handle_error_automatically_def p_bind_def p_return_def)
  qed
qed

theorem handle_error_automatically_policy_witness:
  "detect_and_close_modals sim_interrupted (sim_page ''u'' ''c'') =
     (Inl KeyboardInterrupt, sim_page ''u'' ''c'') \<and>
   sighting sim_interrupted (sim_page ''u'' ''c'') = Interrupted \<and>
   handle_error_automatically sim_interrupted
     (mk_outcome (Some False) ''timeout_error'' ''m'' ''u'' ''t'') (sim_page ''u'' ''c'') =
     (Inl KeyboardInterrupt, sim_page ''u'' ''c'') \<and>
   detect_and_close_modals sim_env ((sim_page ''u'' ''c'')\<lparr>s_overlays := [7]\<rparr>) =
     (Inr True, sim_page ''u'' ''c'') \<and>
   sighting sim_env ((sim_page ''u'' ''c'')\<lparr>s_overlays := [7]\<rparr>) = Overlay 7 \<and>
   uninterrupted sim_env \<and>
   handle_error_automatically sim_env
     (mk_outcome (Some False) ''no_availability_content'' ''m'' ''u'' ''t'')
     ((sim_page ''u'' ''c'')\<lparr>s_overlays := [7]\<rparr>) =
     (Inr ''retry_without_restart'', sim_page ''u'' ''c'') \<and>
   sighting sim_env (sim_page ''u'' ''c'') = Nothing_visible \<and>
   handle_error_automatically sim_env
     (mk_outcome (Some False) ''no_availability_error'' ''m'' ''u'' ''t'') (sim_page ''u'' ''c'') =
     (Inr ''continue'', sim_page ''u'' ''c'') \<and>
   handle_error_automatically sim_env
     (mk_outcome None ''uncertain'' ''m'' ''u'' ''t'') (sim_page ''u'' ''c'') =
     (Inr ''retry_without_restart'', sim_page ''u'' ''c'')"
proof -
  let ?w0 = "sim_page ''u'' ''c''"
  let ?w7 = "(sim_page ''u'' ''c'')\<lparr>s_overlays := [7]\<rparr>"
  have d1: "detect_and_close_modals sim_interrupted ?w0 = (Inl KeyboardInterrupt, ?w0)"
    by (simp add: detect_interrupted sim_interrupted_sighting)
  have d2: "detect_and_close_modals sim_env ?w7 = (Inr True, ?w0)"
    by (rule sim_overlay_detected)
  have h0: "sighting sim_env ?w0 = Nothing_visible" by (rule sim_clear_sighting)
  have h2: "sighting sim_interrupted ?w0 = Interrupted" by (rule sim_interrupted_sighting)
  have h3: "sighting sim_env ?w7 = Overlay 7" by (rule sim_overlay_sighting)
  have h4: "uninterrupted sim_env" by (rule sim_uninterrupted)
  show ?thesis
    using handle_error_automatically_policy
            [of sim_interrupted "mk_outcome (Some False) ''timeout_error'' ''m'' ''u'' ''t''" ?w0
                "''x''" KeyboardInterrupt ?w0 True 7]
          handle_error_automatically_policy
            [of sim_env "mk_outcome (Some False) ''no_availability_content'' ''m'' ''u'' ''t''" ?w7
                "''x''" KeyboardInterrupt ?w0 True 7]
          handle_error_automatically_policy
            [of sim_env "mk_outcome (Some False) ''no_availability_error'' ''m'' ''u'' ''t''" ?w0
                "''x''" KeyboardInterrupt ?w0 True 7]
          handle_error_automatically_policy
            [of sim_env "mk_outcome None ''uncertain'' ''m'' ''u'' ''t''" ?w0
                "''x''" KeyboardInterrupt ?w0 True 7]
          d1 d2 h0 h2 h3 h4
    by (simp add: mk_outcome_def)
qed

text \<open>
  A no-availability error while an overlay is on the page, and the status
  \<open>no_availability\<close> on a clear page: the decision is \<open>retry_without_restart\<close>, not
  \<open>continue\<close>. A timeout error while the guard is interrupted: no decision is returned.
\<close>

theorem handle_error_automatically_counterexample:
  "fst (handle_error_automatically sim_env
     (mk_outcome (Some False) ''no_availability_error'' ''m'' ''u'' ''t'')
     ((sim_page ''u'' ''c'')\<lparr>s_overlays := [7]\<rparr>)) = Inr ''retry_without_restart'' \<and>
   fst (handle_error_automatically sim_env
     (mk_outcome (Some False) ''no_availability'' ''m'' ''u'' ''t'')
     (sim_page ''u'' ''c'')) = Inr ''retry_without_restart'' \<and>
   fst (handle_error_automatically sim_interrupted
     (mk_outcome (Some False) ''timeout_error'' ''m'' ''u'' ''t'')
     (sim_page ''u'' ''c'')) = Inl KeyboardInterrupt"
  by (simp add: handle_error_automatically_def p_bind_def p_return_def sim_overlay_detected
                detect_nothing sim_clear_sighting detect_interrupted sim_interrupted_sighting
                mk_outcome_def)

end
